theory Spec2Isabelle
  imports Complex_Main "HOL-Library.Sublist"
begin

section \<open>JavaScript strings\<close>

text \<open>
  A JavaScript string is modelled as a \<open>string\<close>: a list of code units, restricted to the
  code units below 256. Of the line terminators of ECMAScript (LF, CR, U+2028, U+2029) and
  of its white space, only those below 256 exist in the model.
\<close>

definition is_line_terminator :: "char \<Rightarrow> bool" where
  "is_line_terminator c \<longleftrightarrow> c = CHR 0x0A \<or> c = CHR 0x0D"

definition is_whitespace :: "char \<Rightarrow> bool" where
  "is_whitespace c \<longleftrightarrow>
     c = CHR 0x09 \<or> c = CHR 0x0A \<or> c = CHR 0x0B \<or> c = CHR 0x0C \<or> c = CHR 0x0D \<or>
     c = CHR 0x20 \<or> c = CHR 0xA0"

text \<open>\<open>s.includes(sub)\<close>, \<open>s.startsWith(p)\<close> and \<open>s.endsWith(p)\<close>.\<close>

fun str_includes :: "string \<Rightarrow> string \<Rightarrow> bool" where
  "str_includes [] sub = (sub = [])"
| "str_includes (c # cs) sub = (prefix sub (c # cs) \<or> str_includes cs sub)"

definition startsWith :: "string \<Rightarrow> string \<Rightarrow> bool" where
  "startsWith s p = prefix p s"

definition endsWith :: "string \<Rightarrow> string \<Rightarrow> bool" where
  "endsWith s p = suffix p s"

text \<open>
  \<open>s.replace(pat, rep)\<close> with a string pattern replaces the first occurrence of \<open>pat\<close>.
  The replacement text is expanded by GetSubstitution: \<open>$$\<close> is a dollar sign, \<open>$&\<close> the
  matched text, \<open>$`\<close> the text before the match and \<open>$'\<close> the text after it; a string
  pattern has no capture groups, so every other use of \<open>$\<close> stands for itself.
\<close>

fun getSubstitution :: "string \<Rightarrow> string \<Rightarrow> string \<Rightarrow> string \<Rightarrow> string" where
  "getSubstitution matched preceding following [] = []"
| "getSubstitution matched preceding following [c] = [c]"
| "getSubstitution matched preceding following (c # d # r) =
     (if c = CHR ''$'' then
        (if d = CHR ''$'' then CHR ''$'' # getSubstitution matched preceding following r
         else if d = CHR ''&'' then matched @ getSubstitution matched preceding following r
         else if d = CHR ''`'' then preceding @ getSubstitution matched preceding following r
         else if d = CHR 0x27 then following @ getSubstitution matched preceding following r
         else c # getSubstitution matched preceding following (d # r))
      else c # getSubstitution matched preceding following (d # r))"

fun replaceFrom :: "string \<Rightarrow> string \<Rightarrow> string \<Rightarrow> string \<Rightarrow> string" where
  "replaceFrom preceding [] pat rep =
     (if pat = [] then preceding @ getSubstitution pat preceding [] rep else preceding)"
| "replaceFrom preceding (c # cs) pat rep =
     (if prefix pat (c # cs)
      then preceding @ getSubstitution pat preceding (drop (length pat) (c # cs)) rep
             @ drop (length pat) (c # cs)
      else replaceFrom (preceding @ [c]) cs pat rep)"

definition js_replace :: "string \<Rightarrow> string \<Rightarrow> string \<Rightarrow> string" where
  "js_replace s pat rep = replaceFrom [] s pat rep"

text \<open>\<open>s.split(d)\<close> for a separator of one character; \<open>''''.split(d)\<close> is \<open>['''']\<close>.\<close>

fun split_on :: "char \<Rightarrow> string \<Rightarrow> string list" where
  "split_on d [] = [[]]"
| "split_on d (c # cs) =
     (if c = d then [] # split_on d cs
      else (case split_on d cs of [] \<Rightarrow> [[c]] | x # xs \<Rightarrow> (c # x) # xs))"

fun join_on :: "char \<Rightarrow> string list \<Rightarrow> string" where
  "join_on d [] = []"
| "join_on d [s] = s"
| "join_on d (s # t # ss) = s @ d # join_on d (t # ss)"

text \<open>\<open>a || b\<close> on a value that is a string, \<open>null\<close> or \<open>undefined\<close>: the empty string
  is falsy as well.\<close>

definition js_or :: "string option \<Rightarrow> string \<Rightarrow> string" where
  "js_or a b = (case a of None \<Rightarrow> b | Some s \<Rightarrow> if s = [] then b else s)"

section \<open>The path module (POSIX flavour)\<close>

text \<open>
  The functions of Node's \<open>path\<close> module that the detector calls, in their POSIX form
  (the separator is the slash, an absolute path starts with it).
  \<open>normalizeSegments\<close> is Node's \<open>normalizeString\<close> on the segments between slashes:
  empty segments and \<open>.\<close> are dropped, \<open>..\<close> removes the segment before it, or is kept
  when there is none and the path is relative.
\<close>

fun normalizeSegments :: "bool \<Rightarrow> string list \<Rightarrow> string list \<Rightarrow> string list" where
  "normalizeSegments allowAboveRoot acc [] = acc"
| "normalizeSegments allowAboveRoot acc (s # ss) =
     (if s = [] \<or> s = ''.'' then normalizeSegments allowAboveRoot acc ss
      else if s = ''..'' then
        (if acc \<noteq> [] \<and> last acc \<noteq> ''..''
         then normalizeSegments allowAboveRoot (butlast acc) ss
         else if allowAboveRoot then normalizeSegments allowAboveRoot (acc @ [''..'']) ss
         else normalizeSegments allowAboveRoot acc ss)
      else normalizeSegments allowAboveRoot (acc @ [s]) ss)"

definition normalizeString :: "string \<Rightarrow> bool \<Rightarrow> string" where
  "normalizeString p allowAboveRoot =
     join_on CHR ''/'' (normalizeSegments allowAboveRoot [] (split_on CHR ''/'' p))"

definition path_isAbsolute :: "string \<Rightarrow> bool" where
  "path_isAbsolute p \<longleftrightarrow> (case p of [] \<Rightarrow> False | c # _ \<Rightarrow> c = CHR ''/'')"

definition path_normalize :: "string \<Rightarrow> string" where
  "path_normalize p =
     (if p = [] then ''.''
      else
        let isAbsolute = path_isAbsolute p;
            trailingSeparator = (last p = CHR ''/'');
            body = normalizeString p (\<not> isAbsolute)
        in if body = [] then
             (if isAbsolute then ''/'' else if trailingSeparator then ''./'' else ''.'')
           else
             (if isAbsolute then ''/'' else []) @ body @ (if trailingSeparator then ''/'' else []))"

definition path_join :: "string \<Rightarrow> string \<Rightarrow> string" where
  "path_join a b =
     (let joined = join_on CHR ''/'' (filter (\<lambda>s. s \<noteq> []) [a, b])
      in if joined = [] then ''.'' else path_normalize joined)"

text \<open>\<open>path.resolve\<close> reads its arguments from the right until one is absolute, and the
  working directory of the process after them.\<close>

fun resolveLoop :: "string list \<Rightarrow> string \<Rightarrow> string \<times> bool" where
  "resolveLoop [] resolvedPath = (resolvedPath, False)"
| "resolveLoop (p # ps) resolvedPath =
     (if p = [] then resolveLoop ps resolvedPath
      else if path_isAbsolute p then (p @ ''/'' @ resolvedPath, True)
      else resolveLoop ps (p @ ''/'' @ resolvedPath))"

definition path_resolve :: "string \<Rightarrow> string list \<Rightarrow> string" where
  "path_resolve cwd args =
     (case resolveLoop (rev args @ [cwd]) [] of
        (resolvedPath, resolvedAbsolute) \<Rightarrow>
          let body = normalizeString resolvedPath (\<not> resolvedAbsolute)
          in if resolvedAbsolute then CHR ''/'' # body
             else if body \<noteq> [] then body else ''.'')"

definition path_basename :: "string \<Rightarrow> string" where
  "path_basename p =
     (case filter (\<lambda>s. s \<noteq> []) (split_on CHR ''/'' p) of [] \<Rightarrow> [] | s # ss \<Rightarrow> last (s # ss))"

text \<open>\<open>path.extname\<close>: from the last dot of the base name, unless that dot is its first
  character or the base name is \<open>..\<close>.\<close>

definition path_extname :: "string \<Rightarrow> string" where
  "path_extname p =
     (let b = path_basename p;
          after = rev (takeWhile (\<lambda>c. c \<noteq> CHR ''.'') (rev b))
      in if CHR ''.'' \<notin> set b then []
         else if length after + 1 = length b \<or> b = ''..'' then []
         else CHR ''.'' # after)"

text \<open>\<open>toLowerCase\<close> on the letters A to Z.\<close>

definition toLowerCase :: "string \<Rightarrow> string" where
  "toLowerCase s =
     map (\<lambda>c. if 65 \<le> (of_char c :: nat) \<and> (of_char c :: nat) \<le> 90
              then char_of (of_char c + (32::nat)) else c) s"

section \<open>The indicator registry\<close>

text \<open>
  The two tables of the constructor of \<open>WorkspaceDetector\<close>. \<open>Object.entries\<close> visits the
  keys of an object in insertion order (no key here is an array index), so each table is
  an association list in the order of the source.
\<close>

record indicator_info =
  ind_type :: string
  weight :: nat

definition workspaceIndicators :: "(string \<times> string) list" where
  "workspaceIndicators =
     [(''workspace.json'', ''Generic Workspace''),
      (''workspace.yaml'', ''Generic Workspace''),
      (''workspace.yml'', ''Generic Workspace''),
      (''*.code-workspace'', ''VS Code Workspace''),
      (''lerna.json'', ''Lerna Monorepo''),
      (''nx.json'', ''Nx Workspace''),
      (''rush.json'', ''Rush Monorepo''),
      (''pnpm-workspace.yaml'', ''pnpm Workspace''),
      (''pnpm-lock.yaml'', ''pnpm Workspace''),
      (''yarn.lock'', ''Yarn Workspace''),
      (''WORKSPACE'', ''Bazel Workspace''),
      (''WORKSPACE.bazel'', ''Bazel Workspace''),
      (''Cargo.toml'', ''Cargo Workspace''),
      (''pom.xml'', ''Maven Multi-Module''),
      (''*.sln'', ''.NET Solution'')]"

definition projectIndicators :: "(string \<times> indicator_info) list" where
  "projectIndicators =
     [(''package.json'', \<lparr>ind_type = ''nodejs'', weight = 10\<rparr>),
      (''tsconfig.json'', \<lparr>ind_type = ''typescript'', weight = 8\<rparr>),
      (''next.config.js'', \<lparr>ind_type = ''nextjs'', weight = 15\<rparr>),
      (''nuxt.config.js'', \<lparr>ind_type = ''nuxtjs'', weight = 9\<rparr>),
      (''vue.config.js'', \<lparr>ind_type = ''vue'', weight = 9\<rparr>),
      (''angular.json'', \<lparr>ind_type = ''angular'', weight = 10\<rparr>),
      (''svelte.config.js'', \<lparr>ind_type = ''svelte'', weight = 9\<rparr>),
      (''pyproject.toml'', \<lparr>ind_type = ''python'', weight = 10\<rparr>),
      (''requirements.txt'', \<lparr>ind_type = ''python'', weight = 8\<rparr>),
      (''setup.py'', \<lparr>ind_type = ''python'', weight = 9\<rparr>),
      (''Pipfile'', \<lparr>ind_type = ''python'', weight = 8\<rparr>),
      (''poetry.lock'', \<lparr>ind_type = ''python'', weight = 7\<rparr>),
      (''Cargo.toml'', \<lparr>ind_type = ''rust'', weight = 10\<rparr>),
      (''go.mod'', \<lparr>ind_type = ''go'', weight = 10\<rparr>),
      (''go.sum'', \<lparr>ind_type = ''go'', weight = 8\<rparr>),
      (''*.csproj'', \<lparr>ind_type = ''dotnet'', weight = 10\<rparr>),
      (''*.vbproj'', \<lparr>ind_type = ''dotnet'', weight = 10\<rparr>),
      (''*.fsproj'', \<lparr>ind_type = ''dotnet'', weight = 10\<rparr>),
      (''pom.xml'', \<lparr>ind_type = ''java'', weight = 9\<rparr>),
      (''build.gradle'', \<lparr>ind_type = ''java'', weight = 9\<rparr>),
      (''gradle.properties'', \<lparr>ind_type = ''java'', weight = 7\<rparr>),
      (''composer.json'', \<lparr>ind_type = ''php'', weight = 10\<rparr>),
      (''Gemfile'', \<lparr>ind_type = ''ruby'', weight = 10\<rparr>),
      (''Dockerfile'', \<lparr>ind_type = ''docker'', weight = 5\<rparr>),
      (''docker-compose.yml'', \<lparr>ind_type = ''docker'', weight = 6\<rparr>)]"

section \<open>Regular expressions as backtracking matchers\<close>

text \<open>
  Each regular expression of the source is written with the combinators below, one per
  construct, in continuation-passing style: a matcher receives the matcher of the rest of
  the pattern, and tries its alternatives in the order of a backtracking engine. A greedy
  repetition tries the longest run first, a lazy one the shortest. \<open>search\<close> is an
  unanchored match: the leftmost start position that succeeds.
\<close>

definition lit :: "string \<Rightarrow> (string \<Rightarrow> 'a option) \<Rightarrow> string \<Rightarrow> 'a option" where
  "lit p k s = (if prefix p s then k (drop (length p) s) else None)"

fun plus_greedy ::
  "(char \<Rightarrow> bool) \<Rightarrow> (string \<Rightarrow> string \<Rightarrow> 'a option) \<Rightarrow> string \<Rightarrow> string \<Rightarrow> 'a option" where
  "plus_greedy P k acc [] = None"
| "plus_greedy P k acc (c # cs) =
     (if P c then
        (case plus_greedy P k (acc @ [c]) cs of
           Some r \<Rightarrow> Some r
         | None \<Rightarrow> k (acc @ [c]) cs)
      else None)"

fun plus_lazy ::
  "(char \<Rightarrow> bool) \<Rightarrow> (string \<Rightarrow> string \<Rightarrow> 'a option) \<Rightarrow> string \<Rightarrow> string \<Rightarrow> 'a option" where
  "plus_lazy P k acc [] = None"
| "plus_lazy P k acc (c # cs) =
     (if P c then
        (case k (acc @ [c]) cs of
           Some r \<Rightarrow> Some r
         | None \<Rightarrow> plus_lazy P k (acc @ [c]) cs)
      else None)"

fun star_greedy ::
  "(char \<Rightarrow> bool) \<Rightarrow> (string \<Rightarrow> string \<Rightarrow> 'a option) \<Rightarrow> string \<Rightarrow> string \<Rightarrow> 'a option" where
  "star_greedy P k acc [] = k acc []"
| "star_greedy P k acc (c # cs) =
     (if P c then
        (case star_greedy P k (acc @ [c]) cs of
           Some r \<Rightarrow> Some r
         | None \<Rightarrow> k acc (c # cs))
      else k acc (c # cs))"

definition opt_greedy ::
  "((string \<Rightarrow> 'a option) \<Rightarrow> string \<Rightarrow> 'a option) \<Rightarrow> (string \<Rightarrow> 'a option) \<Rightarrow> string \<Rightarrow> 'a option" where
  "opt_greedy m k s = (case m k s of Some r \<Rightarrow> Some r | None \<Rightarrow> k s)"

definition end_of_input :: "'a \<Rightarrow> string \<Rightarrow> 'a option" where
  "end_of_input r s = (if s = [] then Some r else None)"

fun search :: "(string \<Rightarrow> 'a option) \<Rightarrow> string \<Rightarrow> 'a option" where
  "search m [] = m []"
| "search m (c # cs) = (case m (c # cs) of Some r \<Rightarrow> Some r | None \<Rightarrow> search m cs)"

definition dot :: "char \<Rightarrow> bool" where
  "dot c \<longleftrightarrow> \<not> is_line_terminator c"

section \<open>The file-probe capability\<close>

text \<open>
  The file system is a parameter: a record of the calls the detector makes.
  \<open>fs.pathExists\<close> of fs-extra never rejects (it answers \<open>false\<close> on any failure), so it
  is a total predicate; every other call can raise, and returns \<open>Inl\<close> then.
  \<open>fs_glob pattern cwd\<close> is \<open>glob(pattern, {cwd})\<close>, and \<open>fs_globFiles cwd\<close> is the one call
  \<open>glob('**/*', {cwd, nodir: true, ignore: [...]})\<close> of \<open>countFiles\<close>. A parsed JSON
  document is reduced to the fields the detector reads, with the shape the code expects
  of them (a name is a string, \<open>packages\<close> a list of strings, each folder has a path).
\<close>

datatype js_error = IOError | TypeError

record stats =
  st_isDirectory :: bool
  st_size :: nat
  st_mtime :: nat

record dirent =
  d_name :: string
  d_isDirectory :: bool

record folder =
  f_path :: string
  f_name :: "string option"

record json =
  j_name :: "string option"
  j_packages :: "string list option"
  j_folders :: "folder list option"

record fs =
  fs_pathExists :: "string \<Rightarrow> bool"
  fs_glob :: "string \<Rightarrow> string \<Rightarrow> js_error + string list"
  fs_globFiles :: "string \<Rightarrow> js_error + string list"
  fs_stat :: "string \<Rightarrow> js_error + stats"
  fs_readdir :: "string \<Rightarrow> js_error + dirent list"
  fs_readJSON :: "string \<Rightarrow> js_error + json"
  fs_readFile :: "string \<Rightarrow> js_error + string"
  fs_cwd :: string

section \<open>The project scorer\<close>

text \<open>
  A project candidate, as \<open>analyzeProjectDirectory\<close> builds it. The property \<open>isExternal\<close>
  is absent from the object unless the VS Code analyzer sets it; absent is \<open>False\<close> here.
  The confidence is computed in exact arithmetic. JavaScript computes it in double
  precision, where \<open>totalWeight / 20 * 100\<close> is \<open>5 * totalWeight\<close> for every total the
  registry can produce except 11 (55.00000000000001); rounding is monotone, so the order
  of two confidences is the same in both.
\<close>

record project =
  p_name :: string
  p_path :: string
  absolutePath :: string
  p_type :: string
  confidence :: real
  indicators :: "string list"
  fileCount :: nat
  p_size :: nat
  modified :: nat
  isExternal :: bool

record scan_state =
  sc_indicators :: "string list"
  totalWeight :: nat
  maxWeight :: nat
  primaryType :: string

text \<open>One turn of the loop over the registry, up to the test
  \<open>filePath && await fs.pathExists(filePath)\<close>.\<close>

definition probeIndicator :: "fs \<Rightarrow> string \<Rightarrow> string \<Rightarrow> js_error + bool" where
  "probeIndicator fs dirPath filename =
     (if str_includes filename ''*'' then
        (case fs_glob fs filename dirPath of
           Inl e \<Rightarrow> Inl e
         | Inr matches \<Rightarrow>
             (case matches of
                [] \<Rightarrow> Inr False
              | m # _ \<Rightarrow> Inr (fs_pathExists fs (path_join dirPath m))))
      else Inr (fs_pathExists fs (path_join dirPath filename)))"

text \<open>The loop. The keys of the registry are distinct, so \<open>indicators[filename] = info\<close>
  adds a new key each time, and \<open>Object.keys(indicators)\<close> is the list in this order.\<close>

fun scanIndicators ::
  "fs \<Rightarrow> string \<Rightarrow> (string \<times> indicator_info) list \<Rightarrow> scan_state \<Rightarrow> js_error + scan_state" where
  "scanIndicators fs dirPath [] st = Inr st"
| "scanIndicators fs dirPath ((filename, info) # rest) st =
     (case probeIndicator fs dirPath filename of
        Inl e \<Rightarrow> Inl e
      | Inr matched \<Rightarrow>
          scanIndicators fs dirPath rest
            (if matched then
               \<lparr>sc_indicators = sc_indicators st @ [filename],
                totalWeight = totalWeight st + weight info,
                maxWeight = (if weight info > maxWeight st then weight info else maxWeight st),
                primaryType =
                  (if weight info > maxWeight st then ind_type info else primaryType st)\<rparr>
             else st))"

definition initialScan :: scan_state where
  "initialScan =
     \<lparr>sc_indicators = [], totalWeight = 0, maxWeight = 0, primaryType = ''unknown''\<rparr>"

text \<open>The two regular expressions of \<open>extractProjectName\<close>:
  \<open>/name\s*=\s*"([^"]+)"/\<close> and \<open>/module\s+([^\s\n]+)/\<close>.\<close>

definition re_name :: "string \<Rightarrow> string option" where
  "re_name =
     lit ''name'' (star_greedy is_whitespace (\<lambda>_.
       lit ''='' (star_greedy is_whitespace (\<lambda>_.
         lit [CHR 0x22] (plus_greedy (\<lambda>c. c \<noteq> CHR 0x22) (\<lambda>name.
           lit [CHR 0x22] (\<lambda>_. Some name)) [])) [])) [])"

definition re_module :: "string \<Rightarrow> string option" where
  "re_module =
     lit ''module'' (plus_greedy is_whitespace (\<lambda>_.
       plus_greedy (\<lambda>c. \<not> is_whitespace c \<and> c \<noteq> CHR 0x0A) (\<lambda>modulePath _.
         Some modulePath) []) [])"

definition extractProjectName :: "fs \<Rightarrow> string \<Rightarrow> string \<Rightarrow> string option" where
  "extractProjectName fs dirPath projectType =
     (if projectType \<in> set [''nodejs'', ''typescript'', ''nextjs'', ''vue'', ''nuxtjs'', ''svelte'']
      then
        (let packageJson = path_join dirPath ''package.json''
         in if fs_pathExists fs packageJson then
              (case fs_readJSON fs packageJson of Inl e \<Rightarrow> None | Inr pkg \<Rightarrow> j_name pkg)
            else None)
      else if projectType = ''rust'' then
        (let cargoToml = path_join dirPath ''Cargo.toml''
         in if fs_pathExists fs cargoToml then
              (case fs_readFile fs cargoToml of
                 Inl e \<Rightarrow> None
               | Inr content \<Rightarrow> search re_name content)
            else None)
      else if projectType = ''python'' then
        (let pyprojectToml = path_join dirPath ''pyproject.toml''
         in if fs_pathExists fs pyprojectToml then
              (case fs_readFile fs pyprojectToml of
                 Inl e \<Rightarrow> None
               | Inr content \<Rightarrow> search re_name content)
            else None)
      else if projectType = ''go'' then
        (let goMod = path_join dirPath ''go.mod''
         in if fs_pathExists fs goMod then
              (case fs_readFile fs goMod of
                 Inl e \<Rightarrow> None
               | Inr content \<Rightarrow>
                   (case search re_module content of
                      None \<Rightarrow> None
                    | Some modulePath \<Rightarrow> Some (last (split_on CHR ''/'' modulePath))))
            else None)
      else None)"

definition countFiles :: "fs \<Rightarrow> string \<Rightarrow> nat" where
  "countFiles fs dirPath =
     (case fs_globFiles fs dirPath of Inl e \<Rightarrow> 0 | Inr files \<Rightarrow> length files)"

definition confidenceOf :: "nat \<Rightarrow> real" where
  "confidenceOf w = min 100 (real w / 20 * 100)"

text \<open>\<open>analyzeProjectDirectory\<close>: the whole body is in one \<open>try\<close>, whose \<open>catch\<close> returns
  \<open>null\<close> (\<open>None\<close>).\<close>

definition analyzeProjectDirectory :: "fs \<Rightarrow> string \<Rightarrow> string \<Rightarrow> project option" where
  "analyzeProjectDirectory fs dirPath dirName =
     (case scanIndicators fs dirPath projectIndicators initialScan of
        Inl e \<Rightarrow> None
      | Inr st \<Rightarrow>
          if totalWeight st = 0 then None
          else
            (case fs_stat fs dirPath of
               Inl e \<Rightarrow> None
             | Inr stats \<Rightarrow>
                 Some \<lparr>p_name = js_or (extractProjectName fs dirPath (primaryType st)) dirName,
                       p_path = dirName,
                       absolutePath = dirPath,
                       p_type = primaryType st,
                       confidence = confidenceOf (totalWeight st),
                       indicators = sc_indicators st,
                       fileCount = countFiles fs dirPath,
                       p_size = st_size stats,
                       modified = st_mtime stats,
                       isExternal = False\<rparr>))"

section \<open>Workspace detection\<close>

text \<open>
  The detection result; its field \<open>structure\<close> is \<open>structureKind\<close> here. The fields
  \<open>packagePatterns\<close> and \<open>projectsConfig\<close>, which the
  Lerna, pnpm, Yarn and Nx analyzers fill in, are left out: nothing below reads them. The
  file reads these analyzers perform are kept, since a read that raises ends the analysis.
\<close>

datatype structure_kind = SingleProject | MultiProject | Workspace

datatype config = JsonConfig json | ContentConfig string | StatConfig nat nat

record detection =
  isWorkspace :: bool
  workspaceType :: "string option"
  workspaceConfig :: "config option"
  projects :: "project list"
  structureKind :: structure_kind
  externalProjects :: "project list option"

record workspace_info =
  wi_type :: string
  wi_file :: string
  wi_config :: "config option"

definition readWorkspaceConfig :: "fs \<Rightarrow> string \<Rightarrow> config option" where
  "readWorkspaceConfig fs filePath =
     (let ext = toLowerCase (path_extname filePath)
      in if ext = ''.json'' \<or> endsWith filePath ''.code-workspace'' then
           (case fs_readJSON fs filePath of Inl e \<Rightarrow> None | Inr j \<Rightarrow> Some (JsonConfig j))
         else if ext = ''.yaml'' \<or> ext = ''.yml'' then
           (case fs_readFile fs filePath of
              Inl e \<Rightarrow> None
            | Inr content \<Rightarrow> Some (ContentConfig (take 200 content @ ''...'')))
         else if ext = ''.toml'' then
           (case fs_readFile fs filePath of
              Inl e \<Rightarrow> None
            | Inr content \<Rightarrow> Some (ContentConfig (take 200 content @ ''...'')))
         else
           (case fs_stat fs filePath of
              Inl e \<Rightarrow> None
            | Inr st \<Rightarrow> Some (StatConfig (st_size st) (st_mtime st))))"

text \<open>The loop of \<open>findWorkspaceIndicators\<close> over the table; a \<open>glob\<close> that raises is
  not caught here.\<close>

fun findIndicatorIn ::
  "fs \<Rightarrow> string \<Rightarrow> (string \<times> string) list \<Rightarrow> js_error + workspace_info option" where
  "findIndicatorIn fs rootDir [] = Inr None"
| "findIndicatorIn fs rootDir ((filename, ty) # rest) =
     (if str_includes filename ''*'' then
        (case fs_glob fs filename rootDir of
           Inl e \<Rightarrow> Inl e
         | Inr matches \<Rightarrow>
             (case matches of
                [] \<Rightarrow> findIndicatorIn fs rootDir rest
              | m # _ \<Rightarrow>
                  Inr (Some \<lparr>wi_type = ty, wi_file = m,
                             wi_config = readWorkspaceConfig fs (path_join rootDir m)\<rparr>)))
      else if fs_pathExists fs (path_join rootDir filename) then
        Inr (Some \<lparr>wi_type = ty, wi_file = filename,
                   wi_config = readWorkspaceConfig fs (path_join rootDir filename)\<rparr>)
      else findIndicatorIn fs rootDir rest)"

definition findWorkspaceIndicators :: "fs \<Rightarrow> string \<Rightarrow> js_error + workspace_info option" where
  "findWorkspaceIndicators fs rootDir = findIndicatorIn fs rootDir workspaceIndicators"

definition shouldIgnoreDirectory :: "string \<Rightarrow> bool" where
  "shouldIgnoreDirectory dirName \<longleftrightarrow>
     dirName \<in> set [''node_modules'', ''.git'', ''.svn'', ''.hg'',
                    ''dist'', ''build'', ''target'', ''bin'', ''obj'',
                    ''__pycache__'', ''.pytest_cache'',
                    ''.vscode'', ''.idea'', ''.vs'',
                    ''coverage'', ''.nyc_output'']
     \<or> startsWith dirName ''.''"

text \<open>The candidates of \<open>scanForProjects\<close> in the order they are pushed: the root, then
  each directory of the listing.\<close>

fun analyzeEach :: "fs \<Rightarrow> string \<Rightarrow> string list \<Rightarrow> project list" where
  "analyzeEach fs rootDir [] = []"
| "analyzeEach fs rootDir (dirName # rest) =
     (case analyzeProjectDirectory fs (path_join rootDir dirName) dirName of
        None \<Rightarrow> analyzeEach fs rootDir rest
      | Some project \<Rightarrow> project # analyzeEach fs rootDir rest)"

definition discoverProjects :: "fs \<Rightarrow> string \<Rightarrow> string list \<Rightarrow> project list" where
  "discoverProjects fs rootDir directories =
     (case analyzeProjectDirectory fs rootDir ''.'' of None \<Rightarrow> [] | Some rootProject \<Rightarrow> [rootProject])
     @ analyzeEach fs rootDir directories"

text \<open>\<open>projects.sort((a, b) => b.confidence - a.confidence)\<close>: \<open>Array.prototype.sort\<close>
  is stable, as the insertion sort \<open>sort_key\<close> is.\<close>

definition sortByConfidence :: "project list \<Rightarrow> project list" where
  "sortByConfidence ps = sort_key (\<lambda>p. - confidence p) ps"

definition listDirectories :: "dirent list \<Rightarrow> string list" where
  "listDirectories items =
     map d_name (filter (\<lambda>item. d_isDirectory item \<and> \<not> shouldIgnoreDirectory (d_name item)) items)"

definition scanForProjects :: "fs \<Rightarrow> string \<Rightarrow> project list" where
  "scanForProjects fs rootDir =
     (case fs_readdir fs rootDir of
        Inl e \<Rightarrow> []
      | Inr items \<Rightarrow> sortByConfidence (discoverProjects fs rootDir (listDirectories items)))"

text \<open>
  The analyzers change \<open>detection\<close> in place and may raise part way. Each returns the
  detection as it stands when it ends, with the error if it raised.
\<close>

definition configPackages :: "config option \<Rightarrow> string list option" where
  "configPackages c = (case c of Some (JsonConfig j) \<Rightarrow> j_packages j | _ \<Rightarrow> None)"

definition configFolders :: "config option \<Rightarrow> folder list option" where
  "configFolders c = (case c of Some (JsonConfig j) \<Rightarrow> j_folders j | _ \<Rightarrow> None)"

fun lernaSubdirs ::
  "fs \<Rightarrow> string \<Rightarrow> string \<Rightarrow> string list \<Rightarrow> project list \<Rightarrow> project list \<times> js_error option" where
  "lernaSubdirs fs packagesDir cleanPattern [] projs = (projs, None)"
| "lernaSubdirs fs packagesDir cleanPattern (subdir # rest) projs =
     (let projectPath = path_join packagesDir subdir
      in case fs_stat fs projectPath of
           Inl e \<Rightarrow> (projs, Some e)
         | Inr st \<Rightarrow>
             if st_isDirectory st then
               (case analyzeProjectDirectory fs projectPath (cleanPattern @ ''/'' @ subdir) of
                  None \<Rightarrow> lernaSubdirs fs packagesDir cleanPattern rest projs
                | Some project \<Rightarrow>
                    if list_ex (\<lambda>p. p_path p = p_path project) projs
                    then lernaSubdirs fs packagesDir cleanPattern rest projs
                    else lernaSubdirs fs packagesDir cleanPattern rest (projs @ [project]))
             else lernaSubdirs fs packagesDir cleanPattern rest projs)"

fun lernaPatterns ::
  "fs \<Rightarrow> string \<Rightarrow> string list \<Rightarrow> project list \<Rightarrow> project list \<times> js_error option" where
  "lernaPatterns fs rootDir [] projs = (projs, None)"
| "lernaPatterns fs rootDir (pattern # rest) projs =
     (let cleanPattern = js_replace pattern ''/*'' [];
          packagesDir = path_join rootDir cleanPattern
      in if fs_pathExists fs packagesDir then
           (case fs_readdir fs packagesDir of
              Inl e \<Rightarrow> (projs, Some e)
            | Inr subdirs \<Rightarrow>
                (case lernaSubdirs fs packagesDir cleanPattern (map d_name subdirs) projs of
                   (projs', Some e) \<Rightarrow> (projs', Some e)
                 | (projs', None) \<Rightarrow> lernaPatterns fs rootDir rest projs'))
         else lernaPatterns fs rootDir rest projs)"

definition analyzeLernaWorkspace ::
  "fs \<Rightarrow> string \<Rightarrow> detection \<Rightarrow> detection \<times> js_error option" where
  "analyzeLernaWorkspace fs rootDir detection =
     (case configPackages (workspaceConfig detection) of
        None \<Rightarrow> (detection, None)
      | Some packages \<Rightarrow>
          (case lernaPatterns fs rootDir packages (projects detection) of
             (projs, err) \<Rightarrow> (detection\<lparr>projects := projs\<rparr>, err)))"

definition analyzePnpmWorkspace ::
  "fs \<Rightarrow> string \<Rightarrow> detection \<Rightarrow> detection \<times> js_error option" where
  "analyzePnpmWorkspace fs rootDir detection =
     (let workspaceFile = path_join rootDir ''pnpm-workspace.yaml''
      in if fs_pathExists fs workspaceFile then
           (case fs_readFile fs workspaceFile of
              Inl e \<Rightarrow> (detection, Some e)
            | Inr content \<Rightarrow> (detection, None))
         else (detection, None))"

definition analyzeYarnWorkspace ::
  "fs \<Rightarrow> string \<Rightarrow> detection \<Rightarrow> detection \<times> js_error option" where
  "analyzeYarnWorkspace fs rootDir detection =
     (let packageJsonPath = path_join rootDir ''package.json''
      in if fs_pathExists fs packageJsonPath then
           (case fs_readJSON fs packageJsonPath of
              Inl e \<Rightarrow> (detection, Some e)
            | Inr packageJson \<Rightarrow> (detection, None))
         else (detection, None))"

definition analyzeNxWorkspace ::
  "fs \<Rightarrow> string \<Rightarrow> detection \<Rightarrow> detection \<times> js_error option" where
  "analyzeNxWorkspace fs rootDir detection = (detection, None)"

text \<open>One turn of the loop of \<open>analyzeVSCodeWorkspace\<close> over the declared folders: the
  candidate it pushes to \<open>externalProjects\<close>, if any.\<close>

definition vscodeFolder :: "fs \<Rightarrow> string \<Rightarrow> folder \<Rightarrow> project option" where
  "vscodeFolder fs rootDir folder =
     (let folderPath = f_path folder;
          absPath = (if path_isAbsolute folderPath then folderPath
                     else path_resolve (fs_cwd fs) [rootDir, folderPath])
      in if fs_pathExists fs absPath \<and>
            path_resolve (fs_cwd fs) [absPath] \<noteq> path_resolve (fs_cwd fs) [rootDir]
         then
           (let folderName = js_or (f_name folder) (path_basename absPath)
            in case analyzeProjectDirectory fs absPath folderName of
                 None \<Rightarrow> None
               | Some project \<Rightarrow>
                   Some (project\<lparr>isExternal := True, absolutePath := absPath,
                                 p_path := folderName\<rparr>))
         else None)"

definition analyzeVSCodeWorkspace ::
  "fs \<Rightarrow> string \<Rightarrow> detection \<Rightarrow> detection \<times> js_error option" where
  "analyzeVSCodeWorkspace fs rootDir detection =
     (case configFolders (workspaceConfig detection) of
        None \<Rightarrow> (detection, None)
      | Some folders \<Rightarrow>
          (let external = List.map_filter (vscodeFolder fs rootDir) folders
           in (detection\<lparr>projects := projects detection @ external,
                          externalProjects := Some external\<rparr>, None)))"

definition analyzeWorkspaceStructure ::
  "fs \<Rightarrow> string \<Rightarrow> detection \<Rightarrow> detection \<times> js_error option" where
  "analyzeWorkspaceStructure fs rootDir detection =
     (if workspaceType detection = Some ''Lerna Monorepo''
        then analyzeLernaWorkspace fs rootDir detection
      else if workspaceType detection = Some ''pnpm Workspace''
        then analyzePnpmWorkspace fs rootDir detection
      else if workspaceType detection = Some ''Yarn Workspace''
        then analyzeYarnWorkspace fs rootDir detection
      else if workspaceType detection = Some ''Nx Workspace''
        then analyzeNxWorkspace fs rootDir detection
      else if workspaceType detection = Some ''VS Code Workspace''
        then analyzeVSCodeWorkspace fs rootDir detection
      else (detection, None))"

definition initialDetection :: detection where
  "initialDetection =
     \<lparr>isWorkspace = False, workspaceType = None, workspaceConfig = None, projects = [],
      structureKind = SingleProject, externalProjects = None\<rparr>"

text \<open>\<open>detectWorkspace\<close>: whether the \<open>try\<close> block ends or raises, the object returned is
  \<open>detection\<close> as it stands at that moment.\<close>

definition detectWorkspace :: "fs \<Rightarrow> string \<Rightarrow> detection" where
  "detectWorkspace fs rootDir =
     (case findWorkspaceIndicators fs rootDir of
        Inl e \<Rightarrow> initialDetection
      | Inr workspaceInfo \<Rightarrow>
          let found =
                (case workspaceInfo of
                   None \<Rightarrow> initialDetection
                 | Some wi \<Rightarrow>
                     initialDetection\<lparr>isWorkspace := True, workspaceType := Some (wi_type wi),
                                       workspaceConfig := wi_config wi,
                                       structureKind := Workspace\<rparr>);
              scanned = found\<lparr>projects := scanForProjects fs rootDir\<rparr>;
              labelled =
                (if \<not> isWorkspace scanned \<and> length (projects scanned) > 1
                 then scanned\<lparr>structureKind := MultiProject,
                               workspaceType := Some ''Implicit Multi-Project''\<rparr>
                 else scanned)
          in if isWorkspace labelled
             then fst (analyzeWorkspaceStructure fs rootDir labelled)
             else labelled)"

section \<open>The repository URL codec\<close>

text \<open>
  The provider table of \<open>RepositoryManager\<close>, reduced to the fields the codec reads. A
  property that is \<open>null\<close>, \<open>undefined\<close> or absent is \<open>None\<close>; where the code turns
  \<open>undefined\<close> into text, the text is \<open>undefined\<close>.
\<close>

record repo_config =
  baseUrl :: "string option"
  sshFormat :: "string option"
  httpsFormat :: "string option"
  webFormat :: "string option"

definition repositoryTypes :: "(string \<times> repo_config) list" where
  "repositoryTypes =
     [(''github'',
        \<lparr>baseUrl = Some ''https://github.com'',
         sshFormat = Some (''git@'' @ ''github.com:{owner}/{repo}.git''),
         httpsFormat = Some ''https://github.com/{owner}/{repo}.git'',
         webFormat = Some ''https://github.com/{owner}/{repo}''\<rparr>),
      (''gitea'',
        \<lparr>baseUrl = None,
         sshFormat = Some (''git@'' @ ''{host}:{owner}/{repo}.git''),
         httpsFormat = Some ''https://{host}/{owner}/{repo}.git'',
         webFormat = Some ''https://{host}/{owner}/{repo}''\<rparr>),
      (''gitlab'',
        \<lparr>baseUrl = Some ''https://gitlab.com'',
         sshFormat = Some (''git@'' @ ''{host}:{owner}/{repo}.git''),
         httpsFormat = Some ''https://{host}/{owner}/{repo}.git'',
         webFormat = Some ''https://{host}/{owner}/{repo}''\<rparr>),
      (''bitbucket'',
        \<lparr>baseUrl = Some ''https://bitbucket.org'',
         sshFormat = Some (''git@'' @ ''{host}:{owner}/{repo}.git''),
         httpsFormat = Some ''https://{host}/{owner}/{repo}.git'',
         webFormat = Some ''https://{host}/{owner}/{repo}''\<rparr>),
      (''azure'',
        \<lparr>baseUrl = Some ''https://dev.azure.com'',
         sshFormat = Some (''git@'' @ ''ssh.dev.azure.com:v3/{org}/{project}/{repo}''),
         httpsFormat = Some ''https://dev.azure.com/{org}/{project}/_git/{repo}'',
         webFormat = Some ''https://dev.azure.com/{org}/{project}/_git/{repo}''\<rparr>),
      (''custom'',
        \<lparr>baseUrl = None, sshFormat = None, httpsFormat = None, webFormat = None\<rparr>)]"

record details =
  d_host :: "string option"
  d_owner :: "string option"
  d_repo :: "string option"
  d_project :: "string option"
  d_protocol :: "string option"
  d_url :: "string option"

record repo_info =
  host :: "string option"
  owner :: "string option"
  repo :: "string option"
  org :: "string option"

definition js_string :: "string option \<Rightarrow> string" where
  "js_string v = (case v of None \<Rightarrow> ''undefined'' | Some s \<Rightarrow> s)"

text \<open>
  The three regular expressions of \<open>parseRepositoryUrl\<close>:
  \<open>/git@([^:]+):(.+)\/(.+?)(?:\.git)?$/\<close>,
  \<open>/https:\/\/dev\.azure\.com\/([^/]+)\/([^/]+)\/_git\/(.+)/\<close> and
  \<open>/https:\/\/([^/]+)\/(.+?)\/(.+?)(?:\.git)?(?:\/.*)?$/\<close>.
  Each returns its three groups in order.
\<close>

definition re_ssh :: "string \<Rightarrow> (string \<times> string \<times> string) option" where
  "re_ssh =
     lit ''git@'' (plus_greedy (\<lambda>c. c \<noteq> CHR '':'') (\<lambda>g1.
       lit '':'' (plus_greedy dot (\<lambda>g2.
         lit ''/'' (plus_lazy dot (\<lambda>g3.
           opt_greedy (lit ''.git'') (end_of_input (g1, g2, g3))) [])) [])) [])"

definition re_azure :: "string \<Rightarrow> (string \<times> string \<times> string) option" where
  "re_azure =
     lit ''https://dev.azure.com/'' (plus_greedy (\<lambda>c. c \<noteq> CHR ''/'') (\<lambda>g1.
       lit ''/'' (plus_greedy (\<lambda>c. c \<noteq> CHR ''/'') (\<lambda>g2.
         lit ''/_git/'' (plus_greedy dot (\<lambda>g3 rest. Some (g1, g2, g3)) [])) [])) [])"

definition re_https :: "string \<Rightarrow> (string \<times> string \<times> string) option" where
  "re_https =
     lit ''https://'' (plus_greedy (\<lambda>c. c \<noteq> CHR ''/'') (\<lambda>g1.
       lit ''/'' (plus_lazy dot (\<lambda>g2.
         lit ''/'' (plus_lazy dot (\<lambda>g3.
           opt_greedy (lit ''.git'')
             (opt_greedy (\<lambda>k. lit ''/'' (star_greedy dot (\<lambda>skipped. k) []))
                (end_of_input (g1, g2, g3)))) [])) [])) [])"

definition emptyInfo :: repo_info where
  "emptyInfo = \<lparr>host = None, owner = None, repo = None, org = None\<rparr>"

text \<open>\<open>parseRepositoryUrl\<close>; on a string, nothing in its \<open>try\<close> block can raise.\<close>

definition parseRepositoryUrl :: "string \<Rightarrow> string \<Rightarrow> repo_info" where
  "parseRepositoryUrl url repoType =
     (if startsWith url ''git@'' then
        (case search re_ssh url of
           None \<Rightarrow> emptyInfo
         | Some (g1, g2, g3) \<Rightarrow> emptyInfo\<lparr>host := Some g1, owner := Some g2, repo := Some g3\<rparr>)
      else if startsWith url ''https://'' then
        (if repoType = ''azure'' then
           (case search re_azure url of
              None \<Rightarrow> emptyInfo
            | Some (g1, g2, g3) \<Rightarrow>
                emptyInfo\<lparr>host := Some ''dev.azure.com'', org := Some g1, owner := Some g2,
                           repo := Some g3\<rparr>)
         else
           (case search re_https url of
              None \<Rightarrow> emptyInfo
            | Some (g1, g2, g3) \<Rightarrow>
                emptyInfo\<lparr>host := Some g1, owner := Some g2, repo := Some g3\<rparr>))
      else emptyInfo)"

text \<open>
  \<open>generateRepositoryUrl\<close>. A provider tag that is not in the table makes \<open>config\<close>
  undefined, and reading a property of it raises a TypeError.
\<close>

definition effectiveHost :: "repo_config \<Rightarrow> details \<Rightarrow> string" where
  "effectiveHost cfg details =
     js_or (d_host details)
       (js_or (map_option (\<lambda>b. js_replace b ''https://'' []) (baseUrl cfg)) ''github.com'')"

definition generateRepositoryUrl :: "string \<Rightarrow> details \<Rightarrow> js_error + string option" where
  "generateRepositoryUrl repoType details =
     (if repoType = ''custom'' then Inr (d_url details)
      else
        (case map_of repositoryTypes repoType of
           None \<Rightarrow> Inl TypeError
         | Some cfg \<Rightarrow>
             let hostName = effectiveHost cfg details;
                 protocol = js_or (d_protocol details) ''https'';
                 template = (if protocol = ''ssh'' then sshFormat cfg else httpsFormat cfg)
             in case template of
                  None \<Rightarrow> Inl TypeError
                | Some t \<Rightarrow>
                    let url = js_replace
                                (js_replace (js_replace t ''{host}'' hostName)
                                   ''{owner}'' (js_string (d_owner details)))
                                ''{repo}'' (js_string (d_repo details))
                    in Inr (Some
                         (if repoType = ''azure''
                          then js_replace
                                 (js_replace url ''{org}'' (js_string (d_owner details)))
                                 ''{project}'' (js_string (d_project details))
                          else url))))"

section \<open>Concrete file systems\<close>

text \<open>
  A file system for the examples is built from a list of absolute paths, each a
  directory, a text file or a JSON file. Its \<open>glob\<close> answers the patterns of the two
  registries, which are a star followed by a suffix, with the names in the directory that
  end in the suffix and do not start with a dot.
\<close>

datatype node = Dir | File string | JsonFile json

definition childrenOf :: "(string \<times> node) list \<Rightarrow> string \<Rightarrow> (string \<times> node) list" where
  "childrenOf tree dir =
     filter (\<lambda>(q, n). q \<noteq> dir \<and> q = path_join dir (path_basename q)) tree"

definition fixture :: "(string \<times> node) list \<Rightarrow> fs" where
  "fixture tree =
     \<lparr>fs_pathExists = (\<lambda>p. map_of tree p \<noteq> None),
      fs_glob = (\<lambda>pattern cwd.
         Inr (filter (\<lambda>n. pattern \<noteq> [] \<and> hd pattern = CHR ''*'' \<and> suffix (tl pattern) n \<and>
                          \<not> prefix ''.'' n)
                (map (\<lambda>(q, n). path_basename q) (childrenOf tree cwd)))),
      fs_globFiles = (\<lambda>cwd.
         Inr (map (\<lambda>(q, n). drop (length cwd + 1) q)
                (filter (\<lambda>(q, n). n \<noteq> Dir \<and> prefix (cwd @ ''/'') q) tree))),
      fs_stat = (\<lambda>p. case map_of tree p of
                        None \<Rightarrow> Inl IOError
                      | Some n \<Rightarrow> Inr \<lparr>st_isDirectory = (n = Dir), st_size = 4096, st_mtime = 0\<rparr>),
      fs_readdir = (\<lambda>p. case map_of tree p of
                        Some Dir \<Rightarrow>
                          Inr (map (\<lambda>(q, n). \<lparr>d_name = path_basename q, d_isDirectory = (n = Dir)\<rparr>)
                                 (childrenOf tree p))
                      | _ \<Rightarrow> Inl IOError),
      fs_readJSON = (\<lambda>p. case map_of tree p of Some (JsonFile j) \<Rightarrow> Inr j | _ \<Rightarrow> Inl IOError),
      fs_readFile = (\<lambda>p. case map_of tree p of Some (File c) \<Rightarrow> Inr c | _ \<Rightarrow> Inl IOError),
      fs_cwd = ''/''\<rparr>"

definition packageJson :: "string \<Rightarrow> node" where
  "packageJson n = JsonFile \<lparr>j_name = Some n, j_packages = None, j_folders = None\<rparr>"

text \<open>A Next.js application, a plain Node.js package, and a directory with only a
  Dockerfile.\<close>

definition nextjs_tree :: "(string \<times> node) list" where
  "nextjs_tree =
     [(''/app'', Dir),
      (''/app/package.json'', packageJson ''nextjs-app''),
      (''/app/next.config.js'', File ''module.exports = {}'')]"

definition node_tree :: "(string \<times> node) list" where
  "node_tree = [(''/app'', Dir), (''/app/package.json'', packageJson ''test-project'')]"

definition docker_tree :: "(string \<times> node) list" where
  "docker_tree = [(''/app'', Dir), (''/app/Dockerfile'', File ''FROM scratch'')]"

text \<open>A Lerna monorepo whose root is a Node.js package and whose one package is a Next.js
  application.\<close>

definition lerna_tree :: "(string \<times> node) list" where
  "lerna_tree =
     [(''/w'', Dir),
      (''/w/lerna.json'',
         JsonFile \<lparr>j_name = None, j_packages = Some [''packages/*''], j_folders = None\<rparr>),
      (''/w/package.json'', packageJson ''monorepo-root''),
      (''/w/packages'', Dir),
      (''/w/packages/frontend'', Dir),
      (''/w/packages/frontend/package.json'', packageJson ''frontend''),
      (''/w/packages/frontend/next.config.js'', File ''module.exports = {}'')]"

text \<open>A VS Code workspace file next to the one folder it lists.\<close>

definition vscode_tree :: "(string \<times> node) list" where
  "vscode_tree =
     [(''/w'', Dir),
      (''/w/w.code-workspace'',
         JsonFile \<lparr>j_name = None, j_packages = None,
                   j_folders = Some [\<lparr>f_path = ''app'', f_name = None\<rparr>]\<rparr>),
      (''/w/app'', Dir),
      (''/w/app/package.json'', packageJson ''app'')]"

text \<open>The workspace of the repository's own test: a VS Code workspace that lists itself and
  a folder outside the root under a display name.\<close>

definition external_tree :: "(string \<times> node) list" where
  "external_tree =
     [(''/fixtures'', Dir),
      (''/fixtures/test-workspace'', Dir),
      (''/fixtures/test-workspace/workspace.code-workspace'',
         JsonFile \<lparr>j_name = None, j_packages = None,
                   j_folders = Some [\<lparr>f_path = ''.'', f_name = None\<rparr>,
                                     \<lparr>f_path = ''../external-project'',
                                      f_name = Some ''External Project''\<rparr>]\<rparr>),
      (''/fixtures/external-project'', Dir),
      (''/fixtures/external-project/package.json'', packageJson ''external-ml-project'')]"

section \<open>Predicates used in the statements\<close>

text \<open>An indicator of the registry is matched in a directory when its probe answers
  \<open>true\<close>.\<close>

definition matchedAt :: "fs \<Rightarrow> string \<Rightarrow> string \<times> indicator_info \<Rightarrow> bool" where
  "matchedAt fs dirPath x \<longleftrightarrow> probeIndicator fs dirPath (fst x) = Inr True"

text \<open>\<open>x\<close> is a matched entry of the table \<open>xs\<close>, every matched entry before it is
  strictly lighter and no matched entry after it is heavier: the first of the heaviest.\<close>

definition heaviestFirst ::
  "fs \<Rightarrow> string \<Rightarrow> (string \<times> indicator_info) list \<Rightarrow> string \<times> indicator_info \<Rightarrow> bool" where
  "heaviestFirst fs d xs x \<longleftrightarrow>
     (\<exists>pre post. xs = pre @ x # post \<and> matchedAt fs d x \<and>
        (\<forall>y\<in>set pre. matchedAt fs d y \<longrightarrow> weight (snd y) < weight (snd x)) \<and>
        (\<forall>y\<in>set post. matchedAt fs d y \<longrightarrow> weight (snd y) \<le> weight (snd x)))"

text \<open>The candidates the examples produce.\<close>

definition nextjs_candidate :: project where
  "nextjs_candidate =
     \<lparr>p_name = ''nextjs-app'', p_path = ''app'', absolutePath = ''/app'', p_type = ''nextjs'',
      confidence = 100, indicators = [''package.json'', ''next.config.js''], fileCount = 2,
      p_size = 4096, modified = 0, isExternal = False\<rparr>"

definition node_candidate :: project where
  "node_candidate =
     \<lparr>p_name = ''test-project'', p_path = ''app'', absolutePath = ''/app'', p_type = ''nodejs'',
      confidence = 50, indicators = [''package.json''], fileCount = 1,
      p_size = 4096, modified = 0, isExternal = False\<rparr>"

definition docker_candidate :: project where
  "docker_candidate =
     \<lparr>p_name = ''app'', p_path = ''app'', absolutePath = ''/app'', p_type = ''docker'',
      confidence = 25, indicators = [''Dockerfile''], fileCount = 1,
      p_size = 4096, modified = 0, isExternal = False\<rparr>"

text \<open>Two sibling packages under a root that has no workspace file.\<close>

definition multi_tree :: "(string \<times> node) list" where
  "multi_tree =
     [(''/m'', Dir),
      (''/m/frontend'', Dir),
      (''/m/frontend/package.json'', packageJson ''frontend''),
      (''/m/backend'', Dir),
      (''/m/backend/package.json'', packageJson ''backend'')]"

text \<open>The candidate and the folder entry of the external project in \<open>external_tree\<close>.\<close>

definition external_candidate :: project where
  "external_candidate =
     \<lparr>p_name = ''external-ml-project'', p_path = ''External Project'',
      absolutePath = ''/fixtures/external-project'', p_type = ''nodejs'', confidence = 50,
      indicators = [''package.json''], fileCount = 1, p_size = 4096, modified = 0,
      isExternal = True\<rparr>"

definition external_folder :: folder where
  "external_folder = \<lparr>f_path = ''../external-project'', f_name = Some ''External Project''\<rparr>"

text \<open>The detection \<open>detectWorkspace\<close> hands to \<open>analyzeWorkspaceStructure\<close> once a workspace
  file is found and the scan is done.\<close>

definition workspaceDetection :: "fs \<Rightarrow> string \<Rightarrow> workspace_info \<Rightarrow> detection" where
  "workspaceDetection fs rootDir wi =
     \<lparr>isWorkspace = True, workspaceType = Some (wi_type wi), workspaceConfig = wi_config wi,
      projects = scanForProjects fs rootDir, structureKind = Workspace,
      externalProjects = None\<rparr>"

text \<open>
  A plain segment: not empty, and free of the slash that separates segments, of the
  dollar sign and the brace that \<open>replace\<close> and the templates give a meaning to, and of
  line terminators, which the dot of a regular expression does not match.
\<close>

definition plainSegment :: "string \<Rightarrow> bool" where
  "plainSegment s \<longleftrightarrow>
     s \<noteq> [] \<and> CHR ''/'' \<notin> set s \<and> CHR ''$'' \<notin> set s \<and> CHR ''{'' \<notin> set s \<and>
     CHR 0x0A \<notin> set s \<and> CHR 0x0D \<notin> set s"

text \<open>Generating a URL and parsing it back with the same provider tag.\<close>

definition roundTrip :: "string \<Rightarrow> details \<Rightarrow> repo_info option" where
  "roundTrip repoType details =
     (case generateRepositoryUrl repoType details of
        Inr (Some url) \<Rightarrow> Some (parseRepositoryUrl url repoType)
      | _ \<Rightarrow> None)"

text \<open>Details as the prompts of the tool collect them: for Azure DevOps the
  organization is asked under the name \<open>owner\<close>.\<close>

definition azure_ssh_details :: details where
  "azure_ssh_details =
     \<lparr>d_host = None, d_owner = Some ''myorg'', d_repo = Some ''myrepo'',
      d_project = Some ''myproject'', d_protocol = Some ''ssh'', d_url = None\<rparr>"

definition gitea_details :: details where
  "gitea_details =
     \<lparr>d_host = Some ''git.example.com'', d_owner = Some ''team'', d_repo = Some ''project'',
      d_project = None, d_protocol = Some ''ssh'', d_url = None\<rparr>"

definition azure_https_details :: details where
  "azure_https_details =
     \<lparr>d_host = None, d_owner = Some ''myorg'', d_repo = Some ''myrepo'',
      d_project = Some ''myproject'', d_protocol = Some ''https'', d_url = None\<rparr>"












definition lerna_dot_tree :: "(string \<times> node) list" where
  "lerna_dot_tree =
     [(''/l'', Dir),
      (''/l/lerna.json'',
         JsonFile \<lparr>j_name = None, j_packages = Some [''./*''], j_folders = None\<rparr>),
      (''/l/api'', Dir),
      (''/l/api/package.json'', packageJson ''api'')]"

section \<open>The scorer: facts about the loop over the registry\<close>

lemma scan_totals:
  "scanIndicators fs d xs st = Inr st' \<Longrightarrow>
     sc_indicators st' = sc_indicators st @ map fst (filter (matchedAt fs d) xs) \<and>
     totalWeight st' = totalWeight st + sum_list (map (\<lambda>x. weight (snd x)) (filter (matchedAt fs d) xs))"
proof (induction xs arbitrary: st)
  case Nil
  then show ?case by simp
next
  case (Cons a xs)
  obtain f info where a: "a = (f, info)" by (cases a)
  from Cons.prems obtain m where m: "probeIndicator fs d f = Inr m"
    by (auto simp: a split: sum.splits)
  show ?case
  proof (cases m)
    case True
    with Cons.prems m a Cons.IH show ?thesis
      by (auto simp: matchedAt_def)
  next
    case False
    with Cons.prems m a Cons.IH show ?thesis
      by (auto simp: matchedAt_def)
  qed
qed


lemma heaviestFirst_Cons_skip:
  assumes "heaviestFirst fs d xs x" and "matchedAt fs d a \<longrightarrow> weight (snd a) < weight (snd x)"
  shows "heaviestFirst fs d (a # xs) x"
proof -
  from assms(1) obtain pre post where h: "xs = pre @ x # post" "matchedAt fs d x"
    "\<forall>y\<in>set pre. matchedAt fs d y \<longrightarrow> weight (snd y) < weight (snd x)"
    "\<forall>y\<in>set post. matchedAt fs d y \<longrightarrow> weight (snd y) \<le> weight (snd x)"
    unfolding heaviestFirst_def by blast
  have "a # xs = (a # pre) @ x # post" using h(1) by simp
  moreover have "\<forall>y\<in>set (a # pre). matchedAt fs d y \<longrightarrow> weight (snd y) < weight (snd x)"
    using h(3) assms(2) by simp
  ultimately show ?thesis unfolding heaviestFirst_def using h(2,4) by blast
qed

lemma heaviestFirst_Cons_here:
  assumes "matchedAt fs d a" and "\<forall>y\<in>set xs. matchedAt fs d y \<longrightarrow> weight (snd y) \<le> weight (snd a)"
  shows "heaviestFirst fs d (a # xs) a"
proof -
  have "a # xs = [] @ a # xs" by simp
  then show ?thesis unfolding heaviestFirst_def using assms by fastforce
qed

lemma scan_primary:
  "scanIndicators fs d xs st = Inr st' \<Longrightarrow>
     (maxWeight st' = maxWeight st \<and> primaryType st' = primaryType st \<and>
        (\<forall>y\<in>set xs. matchedAt fs d y \<longrightarrow> weight (snd y) \<le> maxWeight st))
   \<or> (\<exists>x. heaviestFirst fs d xs x \<and> maxWeight st < weight (snd x) \<and>
          maxWeight st' = weight (snd x) \<and> primaryType st' = ind_type (snd x))"
proof (induction xs arbitrary: st)
  case Nil
  then show ?case by simp
next
  case (Cons a xs)
  obtain f info where a: "a = (f, info)" by (cases a)
  from Cons.prems obtain m where m: "probeIndicator fs d f = Inr m"
    by (auto simp: a split: sum.splits)
  show ?case
  proof (cases m)
    case False
    then have na: "\<not> matchedAt fs d a" by (simp add: matchedAt_def a m)
    from False Cons.prems m a have "scanIndicators fs d xs st = Inr st'" by simp
    from Cons.IH[OF this] show ?thesis
    proof
      assume "maxWeight st' = maxWeight st \<and> primaryType st' = primaryType st \<and>
        (\<forall>y\<in>set xs. matchedAt fs d y \<longrightarrow> weight (snd y) \<le> maxWeight st)"
      then show ?thesis using na by simp
    next
      assume "\<exists>x. heaviestFirst fs d xs x \<and> maxWeight st < weight (snd x) \<and>
          maxWeight st' = weight (snd x) \<and> primaryType st' = ind_type (snd x)"
      then obtain x where x: "heaviestFirst fs d xs x" "maxWeight st < weight (snd x)"
        "maxWeight st' = weight (snd x)" "primaryType st' = ind_type (snd x)" by blast
      have "heaviestFirst fs d (a # xs) x"
        using heaviestFirst_Cons_skip[OF x(1)] na by simp
      then show ?thesis using x by blast
    qed
  next
    case True
    then have ma: "matchedAt fs d a" by (simp add: matchedAt_def a m)
    define st1 where "st1 =
       \<lparr>sc_indicators = sc_indicators st @ [f],
        totalWeight = totalWeight st + weight info,
        maxWeight = (if weight info > maxWeight st then weight info else maxWeight st),
        primaryType = (if weight info > maxWeight st then ind_type info else primaryType st)\<rparr>"
    from True Cons.prems m a have run: "scanIndicators fs d xs st1 = Inr st'"
      by (simp add: st1_def)
    show ?thesis
    proof (cases "weight info > maxWeight st")
      case heavier: True
      then have st1: "maxWeight st1 = weight info" "primaryType st1 = ind_type info"
        by (simp_all add: st1_def)
      from Cons.IH[OF run] show ?thesis
      proof
        assume h: "maxWeight st' = maxWeight st1 \<and> primaryType st' = primaryType st1 \<and>
          (\<forall>y\<in>set xs. matchedAt fs d y \<longrightarrow> weight (snd y) \<le> maxWeight st1)"
        then have "heaviestFirst fs d (a # xs) a"
          using heaviestFirst_Cons_here[OF ma] st1 a by simp
        then show ?thesis using h st1 heavier a by auto
      next
        assume "\<exists>x. heaviestFirst fs d xs x \<and> maxWeight st1 < weight (snd x) \<and>
          maxWeight st' = weight (snd x) \<and> primaryType st' = ind_type (snd x)"
        then obtain x where x: "heaviestFirst fs d xs x" "maxWeight st1 < weight (snd x)"
          "maxWeight st' = weight (snd x)" "primaryType st' = ind_type (snd x)" by blast
        have "heaviestFirst fs d (a # xs) x"
          using heaviestFirst_Cons_skip[OF x(1)] x(2) st1 a by simp
        moreover have "maxWeight st < weight (snd x)" using x(2) st1 heavier by simp
        ultimately show ?thesis using x by blast
      qed
    next
      case lighter: False
      then have st1: "maxWeight st1 = maxWeight st" "primaryType st1 = primaryType st"
        by (simp_all add: st1_def)
      from Cons.IH[OF run] show ?thesis
      proof
        assume h: "maxWeight st' = maxWeight st1 \<and> primaryType st' = primaryType st1 \<and>
          (\<forall>y\<in>set xs. matchedAt fs d y \<longrightarrow> weight (snd y) \<le> maxWeight st1)"
        then show ?thesis using st1 lighter a by auto
      next
        assume "\<exists>x. heaviestFirst fs d xs x \<and> maxWeight st1 < weight (snd x) \<and>
          maxWeight st' = weight (snd x) \<and> primaryType st' = ind_type (snd x)"
        then obtain x where x: "heaviestFirst fs d xs x" "maxWeight st1 < weight (snd x)"
          "maxWeight st' = weight (snd x)" "primaryType st' = ind_type (snd x)" by blast
        have "heaviestFirst fs d (a # xs) x"
          using heaviestFirst_Cons_skip[OF x(1)] x(2) st1 lighter a by simp
        moreover have "maxWeight st < weight (snd x)" using x(2) st1 by simp
        ultimately show ?thesis using x by blast
      qed
    qed
  qed
qed

lemma analyze_SomeD:
  assumes "analyzeProjectDirectory fs dirPath dirName = Some p"
  obtains st where "scanIndicators fs dirPath projectIndicators initialScan = Inr st"
    and "totalWeight st \<noteq> 0" and "p_type p = primaryType st"
    and "confidence p = confidenceOf (totalWeight st)" and "indicators p = sc_indicators st"
    and "p_path p = dirName" and "absolutePath p = dirPath" and "\<not> isExternal p"
    and "p_name p = js_or (extractProjectName fs dirPath (p_type p)) dirName"
  using assms unfolding analyzeProjectDirectory_def
  by (auto split: sum.splits if_splits)

lemma registry_keys_distinct: "distinct (map fst projectIndicators)"
  by code_simp

lemma registry_weights: "\<forall>x\<in>set projectIndicators. 5 \<le> weight (snd x) \<and> weight (snd x) \<le> 15"
  by code_simp

lemma registry_heaviest:
  "\<forall>x\<in>set projectIndicators. 15 \<le> weight (snd x) \<longrightarrow> fst x = ''next.config.js'' \<and> ind_type (snd x) = ''nextjs''"
  by code_simp

lemma sum_weights_zero:
  fixes f :: "'a \<Rightarrow> nat"
  shows "sum_list (map f xs) = 0 \<longleftrightarrow> (\<forall>x\<in>set xs. f x = 0)"
  by (induction xs) auto

lemma sum_filter_mono:
  fixes f :: "'a \<Rightarrow> nat"
  shows "(\<forall>x\<in>set xs. P x \<longrightarrow> Q x) \<Longrightarrow>
     sum_list (map f (filter P xs)) \<le> sum_list (map f (filter Q xs))"
  by (induction xs) auto

lemma confidenceOf_mono: "a \<le> b \<Longrightarrow> confidenceOf a \<le> confidenceOf b"
  unfolding confidenceOf_def by (simp add: min.coboundedI2 divide_right_mono)

lemma matched_iff_key:
  assumes "distinct (map fst xs)" and "x \<in> set xs"
  shows "fst x \<in> set (map fst (filter P xs)) \<longleftrightarrow> P x"
proof
  assume "fst x \<in> set (map fst (filter P xs))"
  then obtain y where y: "y \<in> set xs" "P y" "fst y = fst x" by auto
  from assms y have "y = x"
    by (metis eq_key_imp_eq_value prod.collapse)
  with y show "P x" by simp
next
  assume "P x" with assms(2) show "fst x \<in> set (map fst (filter P xs))" by force
qed


section \<open>The scorer: the primary type\<close>

text \<open>
  Claim C6. Whenever the scorer returns a candidate, its type is the type of a matched
  indicator of the registry that is the first of the heaviest: every matched indicator
  before it in the order of the registry is strictly lighter, and no matched indicator
  after it is heavier. In particular, where \<open>next.config.js\<close> (weight 15) is matched, the
  type is \<open>nextjs\<close>, whatever else is matched, \<open>package.json\<close> (weight 10) included.
\<close>

theorem primaryType_heaviest_first:
  assumes "analyzeProjectDirectory fs dirPath dirName = Some p"
  shows "(\<exists>x. heaviestFirst fs dirPath projectIndicators x \<and> p_type p = ind_type (snd x)) \<and>
         (probeIndicator fs dirPath ''next.config.js'' = Inr True \<longrightarrow> p_type p = ''nextjs'')"
proof -
  from assms obtain st where st: "scanIndicators fs dirPath projectIndicators initialScan = Inr st"
    "totalWeight st \<noteq> 0" "p_type p = primaryType st"
    by (rule analyze_SomeD)
  have tw: "totalWeight st =
      sum_list (map (\<lambda>x. weight (snd x)) (filter (matchedAt fs dirPath) projectIndicators))"
    using scan_totals[OF st(1)] by (simp add: initialScan_def)
  have "\<not> (\<forall>y\<in>set projectIndicators. matchedAt fs dirPath y \<longrightarrow> weight (snd y) \<le> 0)"
  proof
    assume "\<forall>y\<in>set projectIndicators. matchedAt fs dirPath y \<longrightarrow> weight (snd y) \<le> 0"
    then have "\<forall>y\<in>set (filter (matchedAt fs dirPath) projectIndicators). weight (snd y) = 0"
      by simp
    then have "sum_list (map (\<lambda>x. weight (snd x)) (filter (matchedAt fs dirPath) projectIndicators)) = 0"
      by (simp only: sum_weights_zero)
    with tw st(2) show False by simp
  qed
  with scan_primary[OF st(1)] obtain x where x: "heaviestFirst fs dirPath projectIndicators x"
    "primaryType st = ind_type (snd x)"
    by (auto simp: initialScan_def)
  have first: "\<exists>x. heaviestFirst fs dirPath projectIndicators x \<and> p_type p = ind_type (snd x)"
    using x st(3) by metis
  have second: "p_type p = ''nextjs''" if n: "probeIndicator fs dirPath ''next.config.js'' = Inr True"
  proof -
    define nx where "nx = (''next.config.js'', \<lparr>ind_type = ''nextjs'', weight = 15\<rparr>)"
    have mem: "nx \<in> set projectIndicators" unfolding nx_def projectIndicators_def by simp
    have mnx: "matchedAt fs dirPath nx" using n by (simp add: matchedAt_def nx_def)
    from x(1) obtain pre post where pp: "projectIndicators = pre @ x # post"
      "\<forall>y\<in>set pre. matchedAt fs dirPath y \<longrightarrow> weight (snd y) < weight (snd x)"
      "\<forall>y\<in>set post. matchedAt fs dirPath y \<longrightarrow> weight (snd y) \<le> weight (snd x)"
      unfolding heaviestFirst_def by blast
    have xin: "x \<in> set projectIndicators" unfolding pp(1) by simp
    have "nx \<in> set pre \<or> nx = x \<or> nx \<in> set post" using mem[unfolded pp(1)] by auto
    then have "weight (snd nx) \<le> weight (snd x)" using pp(2,3) mnx by auto
    then have "15 \<le> weight (snd x)" by (simp add: nx_def)
    with registry_heaviest xin have "ind_type (snd x) = ''nextjs''" by blast
    with x(2) st(3) show ?thesis by simp
  qed
  from first second show ?thesis by blast
qed

theorem primaryType_heaviest_first_witness:
  "analyzeProjectDirectory (fixture nextjs_tree) ''/app'' ''app'' = Some nextjs_candidate \<and>
   probeIndicator (fixture nextjs_tree) ''/app'' ''package.json'' = Inr True \<and>
   probeIndicator (fixture nextjs_tree) ''/app'' ''next.config.js'' = Inr True \<and>
   (\<exists>x. heaviestFirst (fixture nextjs_tree) ''/app'' projectIndicators x \<and>
        p_type nextjs_candidate = ind_type (snd x)) \<and>
   p_type nextjs_candidate = ''nextjs''"
proof -
  have h: "analyzeProjectDirectory (fixture nextjs_tree) ''/app'' ''app'' = Some nextjs_candidate"
    by code_simp
  have m: "probeIndicator (fixture nextjs_tree) ''/app'' ''package.json'' = Inr True"
    by code_simp
  have n: "probeIndicator (fixture nextjs_tree) ''/app'' ''next.config.js'' = Inr True"
    by code_simp
  from primaryType_heaviest_first[OF h] h m n show ?thesis by blast
qed

section \<open>The scorer: confidence\<close>

text \<open>
  Claim C8. Confidence is monotone in the set of matched indicators: if the scorer returns
  a candidate for each of two directories (or for one directory in two states of the file
  system) and every indicator matched by the first is matched by the second, then the
  confidence of the first is at most that of the second.
\<close>

theorem confidence_monotone:
  assumes "analyzeProjectDirectory fs1 dirPath1 dirName1 = Some p1"
    and "analyzeProjectDirectory fs2 dirPath2 dirName2 = Some p2"
    and "set (indicators p1) \<subseteq> set (indicators p2)"
  shows "confidence p1 \<le> confidence p2"
proof -
  from assms(1) obtain st1 where st1:
    "scanIndicators fs1 dirPath1 projectIndicators initialScan = Inr st1"
    "confidence p1 = confidenceOf (totalWeight st1)" "indicators p1 = sc_indicators st1"
    by (rule analyze_SomeD)
  from assms(2) obtain st2 where st2:
    "scanIndicators fs2 dirPath2 projectIndicators initialScan = Inr st2"
    "confidence p2 = confidenceOf (totalWeight st2)" "indicators p2 = sc_indicators st2"
    by (rule analyze_SomeD)
  let ?m1 = "matchedAt fs1 dirPath1" and ?m2 = "matchedAt fs2 dirPath2"
  have i1: "indicators p1 = map fst (filter ?m1 projectIndicators)"
    and t1: "totalWeight st1 = sum_list (map (\<lambda>x. weight (snd x)) (filter ?m1 projectIndicators))"
    using scan_totals[OF st1(1)] st1(3) by (simp_all add: initialScan_def)
  have i2: "indicators p2 = map fst (filter ?m2 projectIndicators)"
    and t2: "totalWeight st2 = sum_list (map (\<lambda>x. weight (snd x)) (filter ?m2 projectIndicators))"
    using scan_totals[OF st2(1)] st2(3) by (simp_all add: initialScan_def)
  have "\<forall>x\<in>set projectIndicators. ?m1 x \<longrightarrow> ?m2 x"
  proof (intro ballI impI)
    fix x assume x: "x \<in> set projectIndicators" "?m1 x"
    then have "fst x \<in> set (indicators p1)"
      using matched_iff_key[OF registry_keys_distinct x(1), of ?m1] i1 by simp
    with assms(3) have "fst x \<in> set (indicators p2)" by blast
    then show "?m2 x"
      using matched_iff_key[OF registry_keys_distinct x(1), of ?m2] i2 by simp
  qed
  then have "totalWeight st1 \<le> totalWeight st2"
    unfolding t1 t2 by (rule sum_filter_mono)
  then show ?thesis using st1(2) st2(2) confidenceOf_mono by simp
qed

theorem confidence_monotone_witness:
  "analyzeProjectDirectory (fixture node_tree) ''/app'' ''app'' = Some node_candidate \<and>
   analyzeProjectDirectory (fixture nextjs_tree) ''/app'' ''app'' = Some nextjs_candidate \<and>
   set (indicators node_candidate) \<subseteq> set (indicators nextjs_candidate) \<and>
   confidence node_candidate \<le> confidence nextjs_candidate"
proof -
  have a: "analyzeProjectDirectory (fixture node_tree) ''/app'' ''app'' = Some node_candidate"
    by code_simp
  have b: "analyzeProjectDirectory (fixture nextjs_tree) ''/app'' ''app'' = Some nextjs_candidate"
    by code_simp
  have c: "set (indicators node_candidate) \<subseteq> set (indicators nextjs_candidate)"
    by (simp add: node_candidate_def nextjs_candidate_def)
  from confidence_monotone[OF a b c] a b c show ?thesis by blast
qed

text \<open>
  Claim C10. A candidate returned by the scorer has at least one matched indicator, and
  its confidence lies between 25 and 100: the lightest indicator of the registry weighs 5,
  and the confidence of a total weight \<open>w\<close> is \<open>min(100, w / 20 * 100)\<close>.
\<close>

theorem candidate_confidence_range:
  assumes "analyzeProjectDirectory fs dirPath dirName = Some p"
  shows "indicators p \<noteq> [] \<and> 25 \<le> confidence p \<and> confidence p \<le> 100 \<and>
         (\<forall>x\<in>set projectIndicators. 5 \<le> weight (snd x)) \<and>
         (''Dockerfile'', \<lparr>ind_type = ''docker'', weight = 5\<rparr>) \<in> set projectIndicators"
proof -
  from assms obtain st where st: "scanIndicators fs dirPath projectIndicators initialScan = Inr st"
    "totalWeight st \<noteq> 0" "confidence p = confidenceOf (totalWeight st)"
    "indicators p = sc_indicators st"
    by (rule analyze_SomeD)
  let ?ms = "filter (matchedAt fs dirPath) projectIndicators"
  have ind: "indicators p = map fst ?ms"
    and tw: "totalWeight st = sum_list (map (\<lambda>x. weight (snd x)) ?ms)"
    using scan_totals[OF st(1)] st(4) by (simp_all add: initialScan_def)
  have "?ms = [] \<Longrightarrow> totalWeight st = 0" using tw by simp
  with st(2) have ne: "?ms \<noteq> []" by (rule_tac notI) simp
  then obtain x xs where ms: "?ms = x # xs" by (cases ?ms) auto
  then have "x \<in> set ?ms" by simp
  then have "x \<in> set projectIndicators" by simp
  with registry_weights have "5 \<le> weight (snd x)" by blast
  then have "5 \<le> totalWeight st" unfolding tw ms by simp
  then have "confidenceOf 5 \<le> confidenceOf (totalWeight st)" by (rule confidenceOf_mono)
  moreover have "confidenceOf 5 = 25" by (simp add: confidenceOf_def)
  moreover have "confidenceOf (totalWeight st) \<le> 100" by (simp add: confidenceOf_def)
  moreover have "(''Dockerfile'', \<lparr>ind_type = ''docker'', weight = 5\<rparr>) \<in> set projectIndicators"
    by (simp add: projectIndicators_def)
  ultimately show ?thesis using ne ind st(3) registry_weights by simp
qed

theorem candidate_confidence_range_witness:
  "analyzeProjectDirectory (fixture docker_tree) ''/app'' ''app'' = Some docker_candidate \<and>
   indicators docker_candidate \<noteq> [] \<and>
   25 \<le> confidence docker_candidate \<and> confidence docker_candidate \<le> 100"
proof -
  have h: "analyzeProjectDirectory (fixture docker_tree) ''/app'' ''app'' = Some docker_candidate"
    by code_simp
  from candidate_confidence_range[OF h] h show ?thesis by blast
qed

section \<open>The scorer: a probe that fails\<close>





section \<open>Workspace detection: facts about the scan and the analyzers\<close>

lemma analyze_fields:
  assumes "analyzeProjectDirectory fs dirPath dirName = Some p"
  shows "p_path p = dirName" and "absolutePath p = dirPath" and "\<not> isExternal p"
    and "p_name p = js_or (extractProjectName fs dirPath (p_type p)) dirName"
  using assms by (auto elim: analyze_SomeD)

lemma analyzeEach_internal: "\<forall>p\<in>set (analyzeEach fs rootDir ds). \<not> isExternal p"
  by (induction ds) (auto split: option.splits simp: analyze_fields(3))

lemma discover_internal:
  "\<forall>p\<in>set (discoverProjects fs rootDir ds). \<not> isExternal p"
  unfolding discoverProjects_def using analyzeEach_internal[of fs rootDir ds]
  by (auto split: option.splits simp: analyze_fields(3))

lemma scan_internal: "\<forall>p\<in>set (scanForProjects fs rootDir). \<not> isExternal p"
  unfolding scanForProjects_def sortByConfidence_def using discover_internal
  by (auto split: sum.splits)



lemma analyzer_keeps_shape:
  "isWorkspace (fst (analyzeWorkspaceStructure fs rootDir d)) = isWorkspace d \<and>
   structureKind (fst (analyzeWorkspaceStructure fs rootDir d)) = structureKind d \<and>
   workspaceType (fst (analyzeWorkspaceStructure fs rootDir d)) = workspaceType d \<and>
   workspaceConfig (fst (analyzeWorkspaceStructure fs rootDir d)) = workspaceConfig d"
  unfolding analyzeWorkspaceStructure_def analyzeLernaWorkspace_def analyzePnpmWorkspace_def
    analyzeYarnWorkspace_def analyzeNxWorkspace_def analyzeVSCodeWorkspace_def
  by (simp add: Let_def split: option.splits sum.splits prod.splits)

lemma detect_cases:
  obtains (raised) e where "findWorkspaceIndicators fs rootDir = Inl e"
      and "detectWorkspace fs rootDir = initialDetection"
  | (plain) "findWorkspaceIndicators fs rootDir = Inr None"
      and "projects (detectWorkspace fs rootDir) = scanForProjects fs rootDir"
      and "workspaceType (detectWorkspace fs rootDir) \<noteq> Some ''Lerna Monorepo''"
      and "workspaceType (detectWorkspace fs rootDir) \<noteq> Some ''VS Code Workspace''"
  | (workspace) wi where "findWorkspaceIndicators fs rootDir = Inr (Some wi)"
      and "detectWorkspace fs rootDir =
             fst (analyzeWorkspaceStructure fs rootDir (workspaceDetection fs rootDir wi))"
proof (cases "findWorkspaceIndicators fs rootDir")
  case (Inl e)
  then show ?thesis using raised by (simp add: detectWorkspace_def)
next
  case (Inr info)
  show ?thesis
  proof (cases info)
    case None
    with Inr show ?thesis using plain
      by (simp add: detectWorkspace_def Let_def initialDetection_def)
  next
    case (Some wi)
    with Inr show ?thesis using workspace[of wi]
      by (simp add: detectWorkspace_def Let_def initialDetection_def workspaceDetection_def)
  qed
qed






lemma vscodeFolder_fields:
  assumes "vscodeFolder fs rootDir folder = Some p"
  shows "isExternal p \<and>
         p_path p = js_or (f_name folder) (path_basename (absolutePath p)) \<and>
         p_name p = js_or (extractProjectName fs (absolutePath p) (p_type p)) (p_path p)"
proof -
  define absPath where "absPath = (if path_isAbsolute (f_path folder) then f_path folder
                     else path_resolve (fs_cwd fs) [rootDir, f_path folder])"
  define folderName where "folderName = js_or (f_name folder) (path_basename absPath)"
  from assms obtain q where q: "analyzeProjectDirectory fs absPath folderName = Some q"
    and p: "p = q\<lparr>isExternal := True, absolutePath := absPath, p_path := folderName\<rparr>"
    unfolding vscodeFolder_def absPath_def folderName_def
    by (auto simp: Let_def split: if_splits option.splits)
  from analyze_fields[OF q] p show ?thesis
    by (simp add: folderName_def)
qed

lemma map_filter_external:
  "filter isExternal (List.map_filter (vscodeFolder fs rootDir) folders) =
     List.map_filter (vscodeFolder fs rootDir) folders"
proof -
  have "\<forall>p\<in>set (List.map_filter (vscodeFolder fs rootDir) folders). isExternal p"
    by (auto simp: List.map_filter_def dest: vscodeFolder_fields)
  then show ?thesis by (simp add: filter_id_conv)
qed

lemma filter_internal_empty:
  "\<forall>p\<in>set ps. \<not> isExternal p \<Longrightarrow> filter isExternal ps = []"
  by (simp add: filter_empty_conv)

section \<open>Workspace detection: the order of the projects\<close>




section \<open>Workspace detection: duplicates\<close>

text \<open>
  Claim C2 (when detection ends no two entries of \<open>projects\<close> have the same normalized
  absolute path, and of a scanned and a declared candidate for one path the declared one
  is kept) does not hold of the code. A folder that a VS Code workspace lists and that the
  scan of the root also finds appears twice, under the same absolute path, once from the
  scan and once marked external: the VS Code analyzer leaves out the root itself and
  compares with nothing else.
\<close>

theorem vscode_duplicate_entries:
  "map absolutePath (projects (detectWorkspace (fixture vscode_tree) ''/w'')) = [''/w/app'', ''/w/app''] \<and>
   map isExternal (projects (detectWorkspace (fixture vscode_tree) ''/w'')) = [False, True]"
  by code_simp

text \<open>The Lerna analyzer does compare before it adds, but the display paths: a package
  declared as \<open>./*\<close> is added as \<open>./api\<close> next to the scanned \<open>api\<close>.\<close>

lemma lerna_dot_duplicate_entries:
  "map absolutePath (projects (detectWorkspace (fixture lerna_dot_tree) ''/l'')) = [''/l/api'', ''/l/api''] \<and>
   map p_path (projects (detectWorkspace (fixture lerna_dot_tree) ''/l'')) = [''api'', ''./api'']"
  by code_simp

section \<open>Workspace detection: folders outside the root\<close>

text \<open>
  Claim C5, as stated, fails: the name of the entry is the name the manifest of the
  external directory declares. This is the workspace of the repository's own test, which
  expects the name \<open>external-ml-project\<close> of \<open>package.json\<close> under the path
  \<open>External Project\<close> of the descriptor.
\<close>

theorem external_name_from_manifest:
  "projects (detectWorkspace (fixture external_tree) ''/fixtures/test-workspace'') = [external_candidate] \<and>
   p_name external_candidate = ''external-ml-project'' \<and>
   p_path external_candidate = ''External Project'' \<and>
   isExternal external_candidate"
  by code_simp

text \<open>
  Claim C5, amended. The candidate the VS Code analyzer builds for a declared folder has
  \<open>isExternal = true\<close>; its \<open>path\<close> is the declared display name, or the base name of
  the resolved directory when none is declared; its \<open>name\<close> is the name extracted from
  the manifest of that directory for its type, and the \<open>path\<close> just described only when
  no name can be extracted. In a VS Code workspace the entries of \<open>projects\<close> with
  \<open>isExternal = true\<close> are exactly these candidates, in the order of the declared folders.
\<close>

theorem vscode_external_entry:
  "(vscodeFolder fs rootDir folder = Some p \<longrightarrow>
      isExternal p \<and>
      p_path p = js_or (f_name folder) (path_basename (absolutePath p)) \<and>
      p_name p = js_or (extractProjectName fs (absolutePath p) (p_type p)) (p_path p)) \<and>
   (workspaceType (detectWorkspace fs rootDir) = Some ''VS Code Workspace'' \<longrightarrow>
    configFolders (workspaceConfig (detectWorkspace fs rootDir)) = Some folders \<longrightarrow>
      filter isExternal (projects (detectWorkspace fs rootDir)) =
        List.map_filter (vscodeFolder fs rootDir) folders)"
proof -
  have second: "filter isExternal (projects (detectWorkspace fs rootDir)) =
        List.map_filter (vscodeFolder fs rootDir) folders"
    if ty: "workspaceType (detectWorkspace fs rootDir) = Some ''VS Code Workspace''"
      and cf: "configFolders (workspaceConfig (detectWorkspace fs rootDir)) = Some folders"
  proof (cases rule: detect_cases[of fs rootDir])
    case (raised e)
    then show ?thesis using ty by (simp add: initialDetection_def)
  next
    case plain
    then show ?thesis using ty by simp
  next
    case (workspace wi)
    let ?d = "workspaceDetection fs rootDir wi"
    have t: "workspaceType ?d = Some ''VS Code Workspace''"
      and c: "configFolders (workspaceConfig ?d) = Some folders"
      using workspace(2) analyzer_keeps_shape[of fs rootDir ?d] ty cf by simp_all
    have p: "projects ?d = scanForProjects fs rootDir" by (simp add: workspaceDetection_def)
    have det: "detectWorkspace fs rootDir = fst (analyzeVSCodeWorkspace fs rootDir ?d)"
      using workspace(2) t by (simp add: analyzeWorkspaceStructure_def)
    have "projects (detectWorkspace fs rootDir) =
            scanForProjects fs rootDir @ List.map_filter (vscodeFolder fs rootDir) folders"
      using det c p by (simp add: analyzeVSCodeWorkspace_def Let_def)
    then show ?thesis
      using filter_internal_empty[OF scan_internal[of fs rootDir]] map_filter_external[of fs rootDir folders]
      by simp
  qed
  show ?thesis using vscodeFolder_fields[of fs rootDir folder p] second by blast
qed

theorem vscode_external_entry_witness:
  "vscodeFolder (fixture external_tree) ''/fixtures/test-workspace'' external_folder
     = Some external_candidate \<and>
   isExternal external_candidate \<and>
   p_path external_candidate = ''External Project'' \<and>
   p_name external_candidate = ''external-ml-project'' \<and>
   extractProjectName (fixture external_tree) ''/fixtures/external-project'' ''nodejs''
     = Some ''external-ml-project'' \<and>
   workspaceType (detectWorkspace (fixture external_tree) ''/fixtures/test-workspace'')
     = Some ''VS Code Workspace'' \<and>
   configFolders (workspaceConfig (detectWorkspace (fixture external_tree) ''/fixtures/test-workspace''))
     = Some [\<lparr>f_path = ''.'', f_name = None\<rparr>, external_folder] \<and>
   filter isExternal (projects (detectWorkspace (fixture external_tree) ''/fixtures/test-workspace''))
     = List.map_filter (vscodeFolder (fixture external_tree) ''/fixtures/test-workspace'')
         [\<lparr>f_path = ''.'', f_name = None\<rparr>, external_folder]"
proof -
  let ?fs = "fixture external_tree" and ?root = "''/fixtures/test-workspace''"
  let ?folders = "[\<lparr>f_path = ''.'', f_name = None\<rparr>, external_folder]"
  have a: "vscodeFolder ?fs ?root external_folder = Some external_candidate" by code_simp
  have b: "workspaceType (detectWorkspace ?fs ?root) = Some ''VS Code Workspace''" by code_simp
  have c: "configFolders (workspaceConfig (detectWorkspace ?fs ?root)) = Some ?folders"
    by code_simp
  have d: "extractProjectName ?fs ''/fixtures/external-project'' ''nodejs''
     = Some ''external-ml-project''" by code_simp
  have e: "p_path external_candidate = ''External Project''"
    "p_name external_candidate = ''external-ml-project''"
    by (simp_all add: external_candidate_def)
  from vscode_external_entry[of ?fs ?root external_folder external_candidate ?folders] a b c d e
  show ?thesis by blast
qed

section \<open>Workspace detection: the structure\<close>

text \<open>
  Claim C7. In every result of \<open>detectWorkspace\<close>, on the path where an error is caught
  as on the others, the structure \<open>workspace\<close> implies \<open>isWorkspace\<close>, and the structure
  \<open>multi-project\<close> implies that \<open>isWorkspace\<close> is false and that there is more than one
  project.
\<close>

theorem structure_invariant:
  "(structureKind (detectWorkspace fs rootDir) = Workspace \<longrightarrow>
      isWorkspace (detectWorkspace fs rootDir)) \<and>
   (structureKind (detectWorkspace fs rootDir) = MultiProject \<longrightarrow>
      \<not> isWorkspace (detectWorkspace fs rootDir) \<and>
      length (projects (detectWorkspace fs rootDir)) > 1)"
  unfolding detectWorkspace_def
  by (simp add: Let_def initialDetection_def analyzer_keeps_shape split: sum.splits option.splits)

theorem structure_invariant_witness:
  "structureKind (detectWorkspace (fixture lerna_tree) ''/w'') = Workspace \<and>
   isWorkspace (detectWorkspace (fixture lerna_tree) ''/w'') \<and>
   structureKind (detectWorkspace (fixture multi_tree) ''/m'') = MultiProject \<and>
   \<not> isWorkspace (detectWorkspace (fixture multi_tree) ''/m'') \<and>
   length (projects (detectWorkspace (fixture multi_tree) ''/m'')) > 1"
proof -
  have a: "structureKind (detectWorkspace (fixture lerna_tree) ''/w'') = Workspace"
    by code_simp
  have b: "structureKind (detectWorkspace (fixture multi_tree) ''/m'') = MultiProject"
    by code_simp
  from structure_invariant[of "fixture lerna_tree" "''/w''"]
       structure_invariant[of "fixture multi_tree" "''/m''"] a b
  show ?thesis by blast
qed

section \<open>The URL codec: facts about replacement and matching\<close>

lemma getSubstitution_plain:
  "CHR ''$'' \<notin> set rep \<Longrightarrow> getSubstitution m b a rep = rep"
  by (induction m b a rep rule: getSubstitution.induct) auto

lemma replaceFrom_skip:
  "CHR ''{'' \<notin> set a \<Longrightarrow>
     replaceFrom pre (a @ s) (CHR ''{'' # pat) rep = replaceFrom (pre @ a) s (CHR ''{'' # pat) rep"
  by (induction a arbitrary: pre) auto

lemma replaceFrom_absent:
  "CHR ''{'' \<notin> set s \<Longrightarrow> replaceFrom pre s (CHR ''{'' # pat) rep = pre @ s"
  by (induction s arbitrary: pre) auto

lemma plus_greedy_none:
  "(\<And>b1 b2. b = b1 @ b2 \<Longrightarrow> b1 \<noteq> [] \<Longrightarrow> (\<forall>x\<in>set b1. P x) \<Longrightarrow> k (acc @ b1) b2 = None)
     \<Longrightarrow> plus_greedy P k acc b = None"
proof (induction b arbitrary: acc)
  case Nil
  then show ?case by simp
next
  case (Cons c cs)
  show ?case
  proof (cases "P c")
    case False
    then show ?thesis by simp
  next
    case True
    have "plus_greedy P k (acc @ [c]) cs = None"
    proof (rule Cons.IH)
      fix b1 b2 assume "cs = b1 @ b2" "b1 \<noteq> []" "\<forall>x\<in>set b1. P x"
      then show "k ((acc @ [c]) @ b1) b2 = None"
        using Cons.prems[of "c # b1" b2] True by simp
    qed
    moreover have "k (acc @ [c]) cs = None"
      using Cons.prems[of "[c]" cs] True by simp
    ultimately show ?thesis using True by simp
  qed
qed

lemma plus_greedy_longest:
  assumes "a \<noteq> []" and "\<forall>x\<in>set a. P x" and "k (acc @ a) b = Some r"
    and "\<And>b1 b2. b = b1 @ b2 \<Longrightarrow> b1 \<noteq> [] \<Longrightarrow> (\<forall>x\<in>set b1. P x) \<Longrightarrow> k (acc @ a @ b1) b2 = None"
  shows "plus_greedy P k acc (a @ b) = Some r"
  using assms
proof (induction a arbitrary: acc)
  case Nil
  then show ?case by simp
next
  case (Cons x a)
  show ?case
  proof (cases "a = []")
    case True
    have "plus_greedy P k (acc @ [x]) b = None"
      by (rule plus_greedy_none) (use Cons.prems(4) True in simp)
    then show ?thesis using Cons.prems True by simp
  next
    case False
    have "plus_greedy P k (acc @ [x]) (a @ b) = Some r"
      by (rule Cons.IH) (use Cons.prems False in simp_all)
    then show ?thesis using Cons.prems by simp
  qed
qed

lemma plus_greedy_run:
  assumes "a \<noteq> []" and "\<forall>x\<in>set a. P x" and "\<not> P c" and "k (acc @ a) (c # rest) = Some r"
  shows "plus_greedy P k acc (a @ c # rest) = Some r"
proof (rule plus_greedy_longest[of a P k acc "c # rest" r])
  show "a \<noteq> []" "\<forall>x\<in>set a. P x" "k (acc @ a) (c # rest) = Some r" by fact+
  fix b1 b2 assume "c # rest = b1 @ b2" "b1 \<noteq> []" "\<forall>x\<in>set b1. P x"
  then have "c \<in> set b1" by (cases b1) auto
  with \<open>\<forall>x\<in>set b1. P x\<close> assms(3) show "k (acc @ a @ b1) b2 = None" by blast
qed

lemma plus_greedy_to_end:
  assumes "a \<noteq> []" and "\<forall>x\<in>set a. P x" and "k (acc @ a) [] = Some r"
  shows "plus_greedy P k acc a = Some r"
  using plus_greedy_longest[of a P k acc "[]" r] assms by simp

lemma plus_lazy_shortest:
  assumes "a \<noteq> []" and "\<forall>x\<in>set a. P x" and "k (acc @ a) rest = Some r"
    and "\<And>a1 a2. a = a1 @ a2 \<Longrightarrow> a1 \<noteq> [] \<Longrightarrow> a2 \<noteq> [] \<Longrightarrow> k (acc @ a1) (a2 @ rest) = None"
  shows "plus_lazy P k acc (a @ rest) = Some r"
  using assms
proof (induction a arbitrary: acc)
  case Nil
  then show ?case by simp
next
  case (Cons x a)
  show ?case
  proof (cases "a = []")
    case True
    then show ?thesis using Cons.prems by simp
  next
    case False
    have here: "k (acc @ [x]) (a @ rest) = None"
      using Cons.prems(4)[of "[x]" a] False by simp
    have "plus_lazy P k (acc @ [x]) (a @ rest) = Some r"
    proof (rule Cons.IH[OF False])
      show "\<forall>x\<in>set a. P x" using Cons.prems(2) by simp
      show "k ((acc @ [x]) @ a) rest = Some r" using Cons.prems(3) by simp
      fix a1 a2 assume "a = a1 @ a2" "a1 \<noteq> []" "a2 \<noteq> []"
      then show "k ((acc @ [x]) @ a1) (a2 @ rest) = None"
        using Cons.prems(4)[of "x # a1" a2] by simp
    qed
    then show ?thesis using Cons.prems(2) here by simp
  qed
qed

lemma plain_dot: "plainSegment s \<Longrightarrow> \<forall>x\<in>set s. dot x"
  unfolding plainSegment_def dot_def is_line_terminator_def by auto

lemma plain_noslash: "plainSegment s \<Longrightarrow> \<forall>x\<in>set s. x \<noteq> CHR ''/''"
  unfolding plainSegment_def by auto

lemma plain_nonempty: "plainSegment s \<Longrightarrow> s \<noteq> []"
  unfolding plainSegment_def by simp

lemma drop4_git: "x \<noteq> [] \<Longrightarrow> drop 4 (x @ ''.git'') \<noteq> []"
proof -
  assume "x \<noteq> []"
  then have "0 < length x" by simp
  then have "\<not> length (x @ ''.git'') \<le> 4" by simp
  then show ?thesis by (simp only: drop_eq_Nil not_False_eq_True)
qed

lemma lit_git_fails: "k (drop 4 s) = None \<Longrightarrow> lit ''.git'' k s = None"
  by (simp add: lit_def eval_nat_numeral)

lemma slash_opt_fails:
  assumes "t \<noteq> []" and "CHR ''/'' \<notin> set t"
  shows "opt_greedy (\<lambda>k. lit ''/'' (star_greedy dot (\<lambda>skipped. k) [])) (end_of_input v) t = None"
  using assms by (cases t) (auto simp: opt_greedy_def lit_def end_of_input_def)

lemma https_tail_fails:
  assumes "x \<noteq> []" and "CHR ''/'' \<notin> set x"
  shows "opt_greedy (lit ''.git'')
           (opt_greedy (\<lambda>k. lit ''/'' (star_greedy dot (\<lambda>skipped. k) [])) (end_of_input v))
           (x @ ''.git'') = None"
proof -
  let ?K = "opt_greedy (\<lambda>k. lit ''/'' (star_greedy dot (\<lambda>skipped. k) [])) (end_of_input v)"
  let ?s = "x @ ''.git''"
  have ns: "CHR ''/'' \<notin> set ?s" using assms(2) by simp
  have whole: "?K ?s = None" by (rule slash_opt_fails) (use ns in simp_all)
  have "drop 4 ?s \<noteq> []" using assms(1) by (rule drop4_git)
  moreover have "CHR ''/'' \<notin> set (drop 4 ?s)" using ns by (meson in_set_dropD)
  ultimately have rest: "?K (drop 4 ?s) = None" by (rule slash_opt_fails)
  have "lit ''.git'' ?K ?s = None" using rest by (rule lit_git_fails)
  then show ?thesis using whole by (simp only: opt_greedy_def option.case)
qed

lemma ssh_tail_fails:
  assumes "x \<noteq> []"
  shows "opt_greedy (lit ''.git'') (end_of_input v) (x @ ''.git'') = None"
proof -
  have "drop 4 (x @ ''.git'') \<noteq> []" using assms by (rule drop4_git)
  then have "end_of_input v (drop 4 (x @ ''.git'')) = None" by (simp only: end_of_input_def if_False)
  then have "lit ''.git'' (end_of_input v) (x @ ''.git'') = None" by (rule lit_git_fails)
  moreover have "end_of_input v (x @ ''.git'') = None" by (simp add: end_of_input_def)
  ultimately show ?thesis by (simp only: opt_greedy_def option.case)
qed

lemma re_https_shape:
  assumes h: "h \<noteq> []" "CHR ''/'' \<notin> set h" and o: "plainSegment ow" and r: "plainSegment rp"
  shows "re_https (''https://'' @ h @ ''/'' @ ow @ ''/'' @ rp @ ''.git'') = Some (h, ow, rp)"
proof -
  let ?K3 = "\<lambda>g3. opt_greedy (lit ''.git'')
             (opt_greedy (\<lambda>k. lit ''/'' (star_greedy dot (\<lambda>skipped. k) []))
                (end_of_input (h, ow, g3)))"
  let ?K2 = "\<lambda>g2. lit ''/'' (plus_lazy dot (\<lambda>g3. opt_greedy (lit ''.git'')
             (opt_greedy (\<lambda>k. lit ''/'' (star_greedy dot (\<lambda>skipped. k) []))
                (end_of_input (h, g2, g3)))) [])"
  have repo: "plus_lazy dot ?K3 [] (rp @ ''.git'') = Some (h, ow, rp)"
  proof (rule plus_lazy_shortest)
    show "rp \<noteq> []" using r by (rule plain_nonempty)
    show "\<forall>x\<in>set rp. dot x" using r by (rule plain_dot)
    show "?K3 ([] @ rp) ''.git'' = Some (h, ow, rp)"
      by (simp add: opt_greedy_def lit_def end_of_input_def)
    fix a1 a2 :: string assume "rp = a1 @ a2" "a1 \<noteq> []" "a2 \<noteq> []"
    then have "CHR ''/'' \<notin> set a2" using plain_noslash[OF r] by auto
    with \<open>a2 \<noteq> []\<close> show "?K3 ([] @ a1) (a2 @ ''.git'') = None"
      by (rule https_tail_fails)
  qed
  have owner: "plus_lazy dot ?K2 [] (ow @ ''/'' @ rp @ ''.git'') = Some (h, ow, rp)"
  proof (rule plus_lazy_shortest)
    show "ow \<noteq> []" using o by (rule plain_nonempty)
    show "\<forall>x\<in>set ow. dot x" using o by (rule plain_dot)
    show "?K2 ([] @ ow) (''/'' @ rp @ ''.git'') = Some (h, ow, rp)"
      using repo by (simp add: lit_def)
    fix a1 a2 :: string assume "ow = a1 @ a2" "a1 \<noteq> []" "a2 \<noteq> []"
    then have "hd a2 \<noteq> CHR ''/''" using plain_noslash[OF o] by (cases a2) auto
    with \<open>a2 \<noteq> []\<close> show "?K2 ([] @ a1) (a2 @ ''/'' @ rp @ ''.git'') = None"
      by (cases a2) (auto simp: lit_def)
  qed
  have "plus_greedy (\<lambda>c. c \<noteq> CHR ''/'')
          (\<lambda>g1. lit ''/'' (plus_lazy dot (\<lambda>g2. lit ''/'' (plus_lazy dot (\<lambda>g3.
             opt_greedy (lit ''.git'')
               (opt_greedy (\<lambda>k. lit ''/'' (star_greedy dot (\<lambda>skipped. k) []))
                  (end_of_input (g1, g2, g3)))) [])) []))
          [] (h @ CHR ''/'' # (ow @ ''/'' @ rp @ ''.git'')) = Some (h, ow, rp)"
  proof (rule plus_greedy_run)
    show "h \<noteq> []" by fact
    show "\<forall>x\<in>set h. x \<noteq> CHR ''/''" using h(2) by auto
    show "\<not> CHR ''/'' \<noteq> CHR ''/''" by simp
    show "lit ''/'' (plus_lazy dot (\<lambda>g2. lit ''/'' (plus_lazy dot (\<lambda>g3.
             opt_greedy (lit ''.git'')
               (opt_greedy (\<lambda>k. lit ''/'' (star_greedy dot (\<lambda>skipped. k) []))
                  (end_of_input ([] @ h, g2, g3)))) [])) [])
           (CHR ''/'' # (ow @ ''/'' @ rp @ ''.git'')) = Some (h, ow, rp)"
      using owner by (simp add: lit_def)
  qed
  then show ?thesis by (simp add: re_https_def lit_def)
qed

lemma re_ssh_shape:
  assumes h: "h \<noteq> []" "CHR '':'' \<notin> set h" and o: "plainSegment ow" and r: "plainSegment rp"
  shows "re_ssh (''git@'' @ h @ '':'' @ ow @ ''/'' @ rp @ ''.git'') = Some (h, ow, rp)"
proof -
  let ?K3 = "\<lambda>g3. opt_greedy (lit ''.git'') (end_of_input (h, ow, g3))"
  let ?K2 = "\<lambda>g2. lit ''/'' (plus_lazy dot (\<lambda>g3.
               opt_greedy (lit ''.git'') (end_of_input (h, g2, g3))) [])"
  have repo: "plus_lazy dot ?K3 [] (rp @ ''.git'') = Some (h, ow, rp)"
  proof (rule plus_lazy_shortest)
    show "rp \<noteq> []" using r by (rule plain_nonempty)
    show "\<forall>x\<in>set rp. dot x" using r by (rule plain_dot)
    show "?K3 ([] @ rp) ''.git'' = Some (h, ow, rp)"
      by (simp add: opt_greedy_def lit_def end_of_input_def)
    fix a1 a2 :: string assume "rp = a1 @ a2" "a1 \<noteq> []" "a2 \<noteq> []"
    then show "?K3 ([] @ a1) (a2 @ ''.git'') = None"
      by (intro ssh_tail_fails)
  qed
  have owner: "plus_greedy dot ?K2 [] (ow @ (''/'' @ rp @ ''.git'')) = Some (h, ow, rp)"
  proof (rule plus_greedy_longest)
    show "ow \<noteq> []" using o by (rule plain_nonempty)
    show "\<forall>x\<in>set ow. dot x" using o by (rule plain_dot)
    show "?K2 ([] @ ow) (''/'' @ rp @ ''.git'') = Some (h, ow, rp)"
      using repo by (simp add: lit_def)
    fix b1 b2 :: string
    assume split: "''/'' @ rp @ ''.git'' = b1 @ b2" and ne: "b1 \<noteq> []"
    then obtain b1' where "b1 = CHR ''/'' # b1'" "rp @ ''.git'' = b1' @ b2"
      by (cases b1) auto
    then have "set b2 \<subseteq> set (rp @ ''.git'')" by (metis set_append sup_ge2)
    then have "CHR ''/'' \<notin> set b2" using plain_noslash[OF r] by auto
    then show "?K2 ([] @ ow @ b1) b2 = None"
      by (cases b2) (auto simp: lit_def)
  qed
  have "plus_greedy (\<lambda>c. c \<noteq> CHR '':'')
          (\<lambda>g1. lit '':'' (plus_greedy dot (\<lambda>g2. lit ''/'' (plus_lazy dot (\<lambda>g3.
             opt_greedy (lit ''.git'') (end_of_input (g1, g2, g3))) [])) []))
          [] (h @ CHR '':'' # (ow @ ''/'' @ rp @ ''.git'')) = Some (h, ow, rp)"
  proof (rule plus_greedy_run)
    show "h \<noteq> []" by fact
    show "\<forall>x\<in>set h. x \<noteq> CHR '':''" using h(2) by auto
    show "\<not> CHR '':'' \<noteq> CHR '':''" by simp
    show "lit '':'' (plus_greedy dot (\<lambda>g2. lit ''/'' (plus_lazy dot (\<lambda>g3.
             opt_greedy (lit ''.git'') (end_of_input ([] @ h, g2, g3))) [])) [])
           (CHR '':'' # (ow @ ''/'' @ rp @ ''.git'')) = Some (h, ow, rp)"
      using owner by (simp add: lit_def)
  qed
  then show ?thesis by (simp add: re_ssh_def lit_def)
qed

lemma re_azure_shape:
  assumes o: "plainSegment og" and p: "plainSegment pr" and r: "plainSegment rp"
  shows "re_azure (''https://dev.azure.com/'' @ og @ ''/'' @ pr @ ''/_git/'' @ rp) = Some (og, pr, rp)"
proof -
  have repo: "plus_greedy dot (\<lambda>g3 rest. Some (og, pr, g3)) [] rp = Some (og, pr, rp)"
    by (rule plus_greedy_to_end) (use r plain_nonempty plain_dot in auto)
  have project: "plus_greedy (\<lambda>c. c \<noteq> CHR ''/'')
          (\<lambda>g2. lit ''/_git/'' (plus_greedy dot (\<lambda>g3 rest. Some (og, g2, g3)) []))
          [] (pr @ CHR ''/'' # (''_git/'' @ rp)) = Some (og, pr, rp)"
  proof (rule plus_greedy_run)
    show "pr \<noteq> []" using p by (rule plain_nonempty)
    show "\<forall>x\<in>set pr. x \<noteq> CHR ''/''" using p by (rule plain_noslash)
    show "\<not> CHR ''/'' \<noteq> CHR ''/''" by simp
    show "lit ''/_git/'' (plus_greedy dot (\<lambda>g3 rest. Some (og, [] @ pr, g3)) [])
            (CHR ''/'' # (''_git/'' @ rp)) = Some (og, pr, rp)"
      using repo by (simp add: lit_def)
  qed
  have "plus_greedy (\<lambda>c. c \<noteq> CHR ''/'')
          (\<lambda>g1. lit ''/'' (plus_greedy (\<lambda>c. c \<noteq> CHR ''/'')
             (\<lambda>g2. lit ''/_git/'' (plus_greedy dot (\<lambda>g3 rest. Some (g1, g2, g3)) [])) []))
          [] (og @ CHR ''/'' # (pr @ ''/_git/'' @ rp)) = Some (og, pr, rp)"
  proof (rule plus_greedy_run)
    show "og \<noteq> []" using o by (rule plain_nonempty)
    show "\<forall>x\<in>set og. x \<noteq> CHR ''/''" using o by (rule plain_noslash)
    show "\<not> CHR ''/'' \<noteq> CHR ''/''" by simp
    show "lit ''/'' (plus_greedy (\<lambda>c. c \<noteq> CHR ''/'')
             (\<lambda>g2. lit ''/_git/'' (plus_greedy dot (\<lambda>g3 rest. Some ([] @ og, g2, g3)) [])) [])
            (CHR ''/'' # (pr @ ''/_git/'' @ rp)) = Some (og, pr, rp)"
      using project by (simp add: lit_def)
  qed
  then show ?thesis by (simp add: re_azure_def lit_def)
qed

lemma plain_nodollar: "plainSegment s \<Longrightarrow> CHR ''$'' \<notin> set s"
  unfolding plainSegment_def by simp

lemma plain_nobrace: "plainSegment s \<Longrightarrow> CHR ''{'' \<notin> set s"
  unfolding plainSegment_def by simp

lemma fill_https:
  assumes "plainSegment h" and "plainSegment ow" and "plainSegment rp"
  shows "js_replace (js_replace (js_replace ''https://{host}/{owner}/{repo}.git'' ''{host}'' h)
            ''{owner}'' ow) ''{repo}'' rp
         = ''https://'' @ h @ ''/'' @ ow @ ''/'' @ rp @ ''.git''"
  using assms[THEN plain_nodollar] assms[THEN plain_nobrace]
  by (simp add: js_replace_def getSubstitution_plain replaceFrom_skip)

lemma fill_ssh:
  assumes "plainSegment h" and "plainSegment ow" and "plainSegment rp"
  shows "js_replace (js_replace (js_replace (''git@'' @ ''{host}:{owner}/{repo}.git'') ''{host}'' h)
            ''{owner}'' ow) ''{repo}'' rp
         = ''git@'' @ h @ '':'' @ ow @ ''/'' @ rp @ ''.git''"
  using assms[THEN plain_nodollar] assms[THEN plain_nobrace]
  by (simp add: js_replace_def getSubstitution_plain replaceFrom_skip)

lemma fill_github_https:
  assumes "plainSegment ow" and "plainSegment rp"
  shows "js_replace (js_replace (js_replace ''https://github.com/{owner}/{repo}.git'' ''{host}'' h)
            ''{owner}'' ow) ''{repo}'' rp
         = ''https://'' @ ''github.com'' @ ''/'' @ ow @ ''/'' @ rp @ ''.git''"
  using assms[THEN plain_nodollar] assms[THEN plain_nobrace]
  by (simp add: js_replace_def getSubstitution_plain replaceFrom_skip)

lemma fill_github_ssh:
  assumes "plainSegment ow" and "plainSegment rp"
  shows "js_replace (js_replace (js_replace (''git@'' @ ''github.com:{owner}/{repo}.git'') ''{host}'' h)
            ''{owner}'' ow) ''{repo}'' rp
         = ''git@'' @ ''github.com'' @ '':'' @ ow @ ''/'' @ rp @ ''.git''"
  using assms[THEN plain_nodollar] assms[THEN plain_nobrace]
  by (simp add: js_replace_def getSubstitution_plain replaceFrom_skip)

lemma fill_azure_https:
  assumes "plainSegment ow" and "plainSegment pr" and "plainSegment rp"
  shows "js_replace (js_replace
           (js_replace (js_replace (js_replace ''https://dev.azure.com/{org}/{project}/_git/{repo}''
              ''{host}'' h) ''{owner}'' ow) ''{repo}'' rp)
           ''{org}'' ow) ''{project}'' pr
         = ''https://dev.azure.com/'' @ ow @ ''/'' @ pr @ ''/_git/'' @ rp"
  using assms[THEN plain_nodollar] assms[THEN plain_nobrace]
  by (simp add: js_replace_def getSubstitution_plain replaceFrom_skip)

lemma parse_https_shape:
  assumes "h \<noteq> []" "CHR ''/'' \<notin> set h" "plainSegment ow" "plainSegment rp" "repoType \<noteq> ''azure''"
  shows "parseRepositoryUrl (''https://'' @ h @ ''/'' @ ow @ ''/'' @ rp @ ''.git'') repoType
         = \<lparr>host = Some h, owner = Some ow, repo = Some rp, org = None\<rparr>"
proof -
  let ?url = "''https://'' @ h @ ''/'' @ ow @ ''/'' @ rp @ ''.git''"
  have "re_https ?url = Some (h, ow, rp)" using assms(1-4) by (rule re_https_shape)
  then have "search re_https ?url = Some (h, ow, rp)" by simp
  then show ?thesis using assms(5)
    by (simp add: parseRepositoryUrl_def startsWith_def emptyInfo_def)
qed

lemma parse_ssh_shape:
  assumes "h \<noteq> []" "CHR '':'' \<notin> set h" "plainSegment ow" "plainSegment rp"
  shows "parseRepositoryUrl (''git@'' @ h @ '':'' @ ow @ ''/'' @ rp @ ''.git'') repoType
         = \<lparr>host = Some h, owner = Some ow, repo = Some rp, org = None\<rparr>"
proof -
  let ?url = "''git@'' @ h @ '':'' @ ow @ ''/'' @ rp @ ''.git''"
  have "re_ssh ?url = Some (h, ow, rp)" using assms by (rule re_ssh_shape)
  then have "search re_ssh ?url = Some (h, ow, rp)" by simp
  then show ?thesis
    by (simp add: parseRepositoryUrl_def startsWith_def emptyInfo_def)
qed

lemma parse_azure_shape:
  assumes "plainSegment og" "plainSegment pr" "plainSegment rp"
  shows "parseRepositoryUrl (''https://dev.azure.com/'' @ og @ ''/'' @ pr @ ''/_git/'' @ rp) ''azure''
         = \<lparr>host = Some ''dev.azure.com'', owner = Some pr, repo = Some rp, org = Some og\<rparr>"
proof -
  let ?url = "''https://dev.azure.com/'' @ og @ ''/'' @ pr @ ''/_git/'' @ rp"
  have "re_azure ?url = Some (og, pr, rp)" using assms by (rule re_azure_shape)
  then have "search re_azure ?url = Some (og, pr, rp)" by simp
  then show ?thesis
    by (simp add: parseRepositoryUrl_def startsWith_def emptyInfo_def)
qed

lemma two_segment_roundtrip:
  assumes ty: "repoType \<in> {''gitea'', ''gitlab'', ''bitbucket''}"
    and cfg: "map_of repositoryTypes repoType = Some cfg"
    and h: "plainSegment (effectiveHost cfg details)"
    and colon: "js_or (d_protocol details) ''https'' = ''ssh'' \<longrightarrow>
                  CHR '':'' \<notin> set (effectiveHost cfg details)"
    and o: "d_owner details = Some ow" "plainSegment ow"
    and r: "d_repo details = Some rp" "plainSegment rp"
  shows "roundTrip repoType details =
           Some \<lparr>host = Some (effectiveHost cfg details), owner = Some ow, repo = Some rp,
                  org = None\<rparr>"
proof -
  let ?h = "effectiveHost cfg details"
  have fmt: "sshFormat cfg = Some (''git@'' @ ''{host}:{owner}/{repo}.git'')"
    "httpsFormat cfg = Some ''https://{host}/{owner}/{repo}.git''"
    using ty cfg by (auto simp: repositoryTypes_def)
  have na: "repoType \<noteq> ''azure''" "repoType \<noteq> ''custom''" using ty by auto
  have hne: "?h \<noteq> []" "CHR ''/'' \<notin> set ?h" using h by (simp_all add: plainSegment_def)
  show ?thesis
  proof (cases "js_or (d_protocol details) ''https'' = ''ssh''")
    case True
    have gen: "generateRepositoryUrl repoType details =
        Inr (Some (''git@'' @ ?h @ '':'' @ ow @ ''/'' @ rp @ ''.git''))"
      using na cfg True fmt(1) o(1) r(1) fill_ssh[OF h o(2) r(2)]
      by (simp add: generateRepositoryUrl_def Let_def js_string_def)
    have "CHR '':'' \<notin> set ?h" using colon True by simp
    from parse_ssh_shape[OF hne(1) this o(2) r(2), of repoType] gen show ?thesis
      by (simp add: roundTrip_def)
  next
    case False
    have gen: "generateRepositoryUrl repoType details =
        Inr (Some (''https://'' @ ?h @ ''/'' @ ow @ ''/'' @ rp @ ''.git''))"
      using na cfg False fmt(2) o(1) r(1) fill_https[OF h o(2) r(2)]
      by (simp add: generateRepositoryUrl_def Let_def js_string_def)
    from parse_https_shape[OF hne o(2) r(2) na(1)] gen show ?thesis
      by (simp add: roundTrip_def)
  qed
qed

lemma github_roundtrip:
  assumes o: "d_owner details = Some ow" "plainSegment ow"
    and r: "d_repo details = Some rp" "plainSegment rp"
  shows "roundTrip ''github'' details =
           Some \<lparr>host = Some ''github.com'', owner = Some ow, repo = Some rp, org = None\<rparr>"
proof -
  have cfg: "map_of repositoryTypes ''github'' =
      Some \<lparr>baseUrl = Some ''https://github.com'',
            sshFormat = Some (''git@'' @ ''github.com:{owner}/{repo}.git''),
            httpsFormat = Some ''https://github.com/{owner}/{repo}.git'',
            webFormat = Some ''https://github.com/{owner}/{repo}''\<rparr>"
    by (simp add: repositoryTypes_def)
  have g: "''github.com'' \<noteq> []" "CHR ''/'' \<notin> set ''github.com''" "CHR '':'' \<notin> set ''github.com''"
    by simp_all
  show ?thesis
  proof (cases "js_or (d_protocol details) ''https'' = ''ssh''")
    case True
    have gen: "generateRepositoryUrl ''github'' details =
        Inr (Some (''git@'' @ ''github.com'' @ '':'' @ ow @ ''/'' @ rp @ ''.git''))"
      using cfg True o(1) r(1) fill_github_ssh[OF o(2) r(2)]
      by (simp add: generateRepositoryUrl_def Let_def js_string_def)
    from parse_ssh_shape[OF g(1) g(3) o(2) r(2), of "''github''"] gen show ?thesis
      by (simp add: roundTrip_def)
  next
    case False
    have gen: "generateRepositoryUrl ''github'' details =
        Inr (Some (''https://'' @ ''github.com'' @ ''/'' @ ow @ ''/'' @ rp @ ''.git''))"
      using cfg False o(1) r(1) fill_github_https[OF o(2) r(2)]
      by (simp add: generateRepositoryUrl_def Let_def js_string_def)
    from parse_https_shape[OF g(1) g(2) o(2) r(2), of "''github''"] gen show ?thesis
      by (simp add: roundTrip_def)
  qed
qed

lemma azure_https_roundtrip:
  assumes o: "d_owner details = Some ow" "plainSegment ow"
    and r: "d_repo details = Some rp" "plainSegment rp"
    and p: "d_project details = Some pr" "plainSegment pr"
    and proto: "js_or (d_protocol details) ''https'' \<noteq> ''ssh''"
  shows "roundTrip ''azure'' details =
           Some \<lparr>host = Some ''dev.azure.com'', owner = Some pr, repo = Some rp, org = Some ow\<rparr>"
proof -
  have cfg: "map_of repositoryTypes ''azure'' =
      Some \<lparr>baseUrl = Some ''https://dev.azure.com'',
            sshFormat = Some (''git@'' @ ''ssh.dev.azure.com:v3/{org}/{project}/{repo}''),
            httpsFormat = Some ''https://dev.azure.com/{org}/{project}/_git/{repo}'',
            webFormat = Some ''https://dev.azure.com/{org}/{project}/_git/{repo}''\<rparr>"
    by (simp add: repositoryTypes_def)
  have gen: "generateRepositoryUrl ''azure'' details =
      Inr (Some (''https://dev.azure.com/'' @ ow @ ''/'' @ pr @ ''/_git/'' @ rp))"
    using cfg proto o(1) r(1) p(1) fill_azure_https[OF o(2) p(2) r(2)]
    by (simp add: generateRepositoryUrl_def Let_def js_string_def)
  from parse_azure_shape[OF o(2) p(2) r(2)] gen show ?thesis
    by (simp add: roundTrip_def)
qed

section \<open>The URL codec: generating and parsing back\<close>

text \<open>
  Claim C4, as stated, fails: Azure DevOps has an SSH template, and the URL generated from
  it is parsed by the one SSH pattern for all providers, which reads \<open>v3/org/project\<close> as
  the owner and sets no \<open>org\<close>.
\<close>

theorem azure_ssh_not_inverted:
  "generateRepositoryUrl ''azure'' azure_ssh_details
     = Inr (Some (''git@'' @ ''ssh.dev.azure.com:v3/myorg/myproject/myrepo'')) \<and>
   roundTrip ''azure'' azure_ssh_details
     = Some \<lparr>host = Some ''ssh.dev.azure.com'', owner = Some ''v3/myorg/myproject'',
             repo = Some ''myrepo'', org = None\<rparr>"
  by code_simp

text \<open>
  Claim C4, amended. Let owner and repo be plain segments (not empty, without slash,
  dollar sign, opening brace or line terminator). For GitHub, with either protocol,
  parsing the generated URL gives back the owner and the repo with the host
  \<open>github.com\<close>, whatever host was supplied. For Gitea, GitLab and Bitbucket, with either
  protocol, it gives back the owner, the repo and the host that was used (the supplied
  one, or else the provider's default), provided that host is a plain segment and, for
  SSH, has no colon. For Azure DevOps over HTTPS, with a plain project, it gives the host
  \<open>dev.azure.com\<close>, the supplied owner as \<open>org\<close>, the supplied project as \<open>owner\<close>, and
  the repo. Nothing is claimed for Azure DevOps over SSH.
\<close>

theorem generate_parse_roundtrip:
  assumes "d_owner details = Some ow" and "plainSegment ow"
    and "d_repo details = Some rp" and "plainSegment rp"
  shows "(repoType \<in> {''gitea'', ''gitlab'', ''bitbucket''} \<longrightarrow>
          map_of repositoryTypes repoType = Some cfg \<longrightarrow>
          plainSegment (effectiveHost cfg details) \<longrightarrow>
          (js_or (d_protocol details) ''https'' = ''ssh'' \<longrightarrow>
             CHR '':'' \<notin> set (effectiveHost cfg details)) \<longrightarrow>
            roundTrip repoType details =
              Some \<lparr>host = Some (effectiveHost cfg details), owner = Some ow, repo = Some rp,
                     org = None\<rparr>) \<and>
         roundTrip ''github'' details =
           Some \<lparr>host = Some ''github.com'', owner = Some ow, repo = Some rp, org = None\<rparr> \<and>
         (js_or (d_protocol details) ''https'' \<noteq> ''ssh'' \<longrightarrow>
          d_project details = Some pr \<longrightarrow> plainSegment pr \<longrightarrow>
            roundTrip ''azure'' details =
              Some \<lparr>host = Some ''dev.azure.com'', owner = Some pr, repo = Some rp,
                     org = Some ow\<rparr>)"
  using two_segment_roundtrip[of repoType cfg details ow rp]
    github_roundtrip[of details ow rp] azure_https_roundtrip[of details ow rp pr] assms
  by blast

theorem generate_parse_roundtrip_witness:
  "d_owner gitea_details = Some ''team'' \<and> plainSegment ''team'' \<and>
   d_repo gitea_details = Some ''project'' \<and> plainSegment ''project'' \<and>
   map_of repositoryTypes ''gitea'' =
     Some \<lparr>baseUrl = None, sshFormat = Some (''git@'' @ ''{host}:{owner}/{repo}.git''),
           httpsFormat = Some ''https://{host}/{owner}/{repo}.git'',
           webFormat = Some ''https://{host}/{owner}/{repo}''\<rparr> \<and>
   effectiveHost \<lparr>baseUrl = None, sshFormat = Some (''git@'' @ ''{host}:{owner}/{repo}.git''),
           httpsFormat = Some ''https://{host}/{owner}/{repo}.git'',
           webFormat = Some ''https://{host}/{owner}/{repo}''\<rparr> gitea_details = ''git.example.com'' \<and>
   plainSegment ''git.example.com'' \<and> CHR '':'' \<notin> set ''git.example.com'' \<and>
   roundTrip ''gitea'' gitea_details =
     Some \<lparr>host = Some ''git.example.com'', owner = Some ''team'', repo = Some ''project'',
            org = None\<rparr> \<and>
   roundTrip ''github'' gitea_details =
     Some \<lparr>host = Some ''github.com'', owner = Some ''team'', repo = Some ''project'',
            org = None\<rparr> \<and>
   d_owner azure_https_details = Some ''myorg'' \<and> plainSegment ''myorg'' \<and>
   d_repo azure_https_details = Some ''myrepo'' \<and> plainSegment ''myrepo'' \<and>
   d_project azure_https_details = Some ''myproject'' \<and> plainSegment ''myproject'' \<and>
   js_or (d_protocol azure_https_details) ''https'' \<noteq> ''ssh'' \<and>
   roundTrip ''azure'' azure_https_details =
     Some \<lparr>host = Some ''dev.azure.com'', owner = Some ''myproject'', repo = Some ''myrepo'',
            org = Some ''myorg''\<rparr>"
proof -
  let ?cfg = "\<lparr>baseUrl = None, sshFormat = Some (''git@'' @ ''{host}:{owner}/{repo}.git''),
           httpsFormat = Some ''https://{host}/{owner}/{repo}.git'',
           webFormat = Some ''https://{host}/{owner}/{repo}''\<rparr>"
  have g: "d_owner gitea_details = Some ''team''" "d_repo gitea_details = Some ''project''"
    by (simp_all add: gitea_details_def)
  have gp: "plainSegment ''team''" "plainSegment ''project''" "plainSegment ''git.example.com''"
    by code_simp+
  have c: "map_of repositoryTypes ''gitea'' = Some ?cfg" by (simp add: repositoryTypes_def)
  have e: "effectiveHost ?cfg gitea_details = ''git.example.com''"
    by (simp add: effectiveHost_def gitea_details_def js_or_def)
  have nc: "CHR '':'' \<notin> set ''git.example.com''" by simp
  have a: "d_owner azure_https_details = Some ''myorg''" "d_repo azure_https_details = Some ''myrepo''"
    "d_project azure_https_details = Some ''myproject''"
    "js_or (d_protocol azure_https_details) ''https'' \<noteq> ''ssh''"
    by (simp_all add: azure_https_details_def js_or_def)
  have ap: "plainSegment ''myorg''" "plainSegment ''myrepo''" "plainSegment ''myproject''"
    by code_simp+
  have m: "''gitea'' \<in> {''gitea'', ''gitlab'', ''bitbucket''}" by simp
  from generate_parse_roundtrip[OF g(1) gp(1) g(2) gp(2), of "''gitea''" ?cfg "[]"] m c e gp(3) nc
  have r1: "roundTrip ''gitea'' gitea_details =
     Some \<lparr>host = Some ''git.example.com'', owner = Some ''team'', repo = Some ''project'',
            org = None\<rparr>"
    and r2: "roundTrip ''github'' gitea_details =
     Some \<lparr>host = Some ''github.com'', owner = Some ''team'', repo = Some ''project'',
            org = None\<rparr>"
    by simp_all
  from generate_parse_roundtrip[OF a(1) ap(1) a(2) ap(2), of "''azure''" ?cfg "''myproject''"] a(3,4) ap(3)
  have r3: "roundTrip ''azure'' azure_https_details =
     Some \<lparr>host = Some ''dev.azure.com'', owner = Some ''myproject'', repo = Some ''myrepo'',
            org = Some ''myorg''\<rparr>"
    by simp
  from g gp c e nc a ap r1 r2 r3 show ?thesis by simp
qed

section \<open>The URL codec: input that cannot be parsed\<close>

text \<open>
  Claim C9. \<open>parseRepositoryUrl\<close> is total on strings (no operation of its body can
  raise on a string, and the model returns a plain record): on a URL with neither of the
  two known prefixes, and on a URL whose pattern does not match, it returns the record
  with all four fields \<open>null\<close>. In every result either all four fields are \<open>null\<close>, or
  host, owner and repo are all set; \<open>org\<close> is set only for the provider tag \<open>azure\<close>.
\<close>

theorem parse_never_raises:
  "(\<not> startsWith url ''git@'' \<and> \<not> startsWith url ''https://'' \<longrightarrow>
      parseRepositoryUrl url repoType = emptyInfo) \<and>
   (startsWith url ''git@'' \<and> search re_ssh url = None \<longrightarrow>
      parseRepositoryUrl url repoType = emptyInfo) \<and>
   (\<not> startsWith url ''git@'' \<and> repoType = ''azure'' \<and> search re_azure url = None \<longrightarrow>
      parseRepositoryUrl url repoType = emptyInfo) \<and>
   (\<not> startsWith url ''git@'' \<and> repoType \<noteq> ''azure'' \<and> search re_https url = None \<longrightarrow>
      parseRepositoryUrl url repoType = emptyInfo) \<and>
   (parseRepositoryUrl url repoType = emptyInfo \<or>
      (host (parseRepositoryUrl url repoType) \<noteq> None \<and>
       owner (parseRepositoryUrl url repoType) \<noteq> None \<and>
       repo (parseRepositoryUrl url repoType) \<noteq> None)) \<and>
   (org (parseRepositoryUrl url repoType) \<noteq> None \<longrightarrow> repoType = ''azure'')"
  unfolding parseRepositoryUrl_def emptyInfo_def
  by (auto split: option.splits)

theorem parse_never_raises_witness:
  "\<not> startsWith ''not-a-url'' ''git@'' \<and> \<not> startsWith ''not-a-url'' ''https://'' \<and>
   parseRepositoryUrl ''not-a-url'' ''github'' = emptyInfo \<and>
   startsWith (''git@'' @ ''github.com'') ''git@'' \<and> search re_ssh (''git@'' @ ''github.com'') = None \<and>
   parseRepositoryUrl (''git@'' @ ''github.com'') ''github'' = emptyInfo \<and>
   \<not> startsWith ''https://github.com/mycompany'' ''git@'' \<and>
   search re_azure ''https://github.com/mycompany'' = None \<and>
   parseRepositoryUrl ''https://github.com/mycompany'' ''azure'' = emptyInfo \<and>
   search re_https ''https://github.com/mycompany'' = None \<and>
   parseRepositoryUrl ''https://github.com/mycompany'' ''github'' = emptyInfo \<and>
   org (parseRepositoryUrl ''https://dev.azure.com/myorg/myproject/_git/myrepo'' ''azure'') \<noteq> None"
proof -
  have a: "\<not> startsWith ''not-a-url'' ''git@''" "\<not> startsWith ''not-a-url'' ''https://''"
    by code_simp+
  have b: "startsWith (''git@'' @ ''github.com'') ''git@''"
    "search re_ssh (''git@'' @ ''github.com'') = None"
    by code_simp+
  have c: "\<not> startsWith ''https://github.com/mycompany'' ''git@''"
    "search re_azure ''https://github.com/mycompany'' = None"
    "search re_https ''https://github.com/mycompany'' = None"
    by code_simp+
  have d: "org (parseRepositoryUrl ''https://dev.azure.com/myorg/myproject/_git/myrepo'' ''azure'') \<noteq> None"
    by code_simp
  have n: "''github'' \<noteq> ''azure''" by simp
  from parse_never_raises[of "''not-a-url''" "''github''"] a
  have r1: "parseRepositoryUrl ''not-a-url'' ''github'' = emptyInfo" by blast
  from parse_never_raises[of "''git@'' @ ''github.com''" "''github''"] b
  have r2: "parseRepositoryUrl (''git@'' @ ''github.com'') ''github'' = emptyInfo" by blast
  from parse_never_raises[of "''https://github.com/mycompany''" "''azure''"] c
  have r3: "parseRepositoryUrl ''https://github.com/mycompany'' ''azure'' = emptyInfo" by blast
  from parse_never_raises[of "''https://github.com/mycompany''" "''github''"] c n
  have r4: "parseRepositoryUrl ''https://github.com/mycompany'' ''github'' = emptyInfo" by blast
  from a b c d r1 r2 r3 r4 show ?thesis by blast
qed

end
